theory Spec2Isabelle
  imports Complex_Main
begin

section \<open>The FID sweep script \<open>calculate_fid_excel.py\<close>\<close>

text \<open>
  The script sweeps a grid of \<open>steps\<close> and \<open>eta\<close> values, calls the external FID engine
  once for every grid point whose sample directory exists, collects one row per point and
  writes a workbook, a CSV file and a text report with pandas.

  Modelling decisions.
  \<^item> The module-level configuration (lines 14-18) is a record passed to \<open>main\<close>, so that
    statements can range over step and eta lists; \<open>default_config\<close> holds the values of
    the source. The table \<open>eta_to_folder\<close> (lines 20-25) is the constant of the source.
  \<^item> The file system (\<open>os.path.exists\<close>), the engine \<open>calculate_fid_given_paths\<close> and the
    answer typed at the prompt of line 45 are the environment. The engine is imported from
    the module \<open>measure_fid\<close>, which is not among the sources; it is a parameter, a function
    of the two paths that either returns a value or raises an \<open>Exception\<close>, which is what
    line 86 catches. The file system does not change during a run.
  \<^item> pandas is a library outside the script. The operations the script calls
    (\<open>pivot\<close>, \<open>sort_index\<close>, \<open>groupby(...).mean()\<close>, \<open>min\<close>, \<open>max\<close>, \<open>mean\<close>, \<open>std\<close>,
    \<open>idxmin\<close>, \<open>idxmax\<close>) are written out as functions on the list of rows, after the
    behaviour of the library on a frame with the default index.
  \<^item> Floating-point numbers are idealised as rationals: eta values are compared by value
    as Python compares dictionary keys and pandas compares column entries, and sums and
    means are exact. No statement below is about rounding. A missing value (Python
    \<open>None\<close>, pandas \<open>NaN\<close>) is \<open>None\<close>.
  \<^item> What is printed and written is kept as structured data (a message per \<open>print\<close>, a
    record per sheet, an item per block of the text file), not as rendered characters.
    The one rendering that is written out is the format field \<open>{x:.4f}\<close> of the text file.
\<close>

subsection \<open>Configuration and environment\<close>

record config =
  reference_path :: string
  samples_base_path :: string
  steps_list :: "int list"
  eta_list :: "rat list"

definition default_config :: config where
  "default_config =
     \<lparr>reference_path = ''./data/afhq/eval'',
      samples_base_path = ''./samples'',
      steps_list = [10, 20, 50, 100, 1000],
      eta_list = [0, 2 / 10, 5 / 10, 1]\<rparr>"

definition eta_to_folder :: "rat \<Rightarrow> string option" where
  "eta_to_folder =
     map_of [(0, ''eta_0''), (2 / 10, ''eta_02''), (5 / 10, ''eta_05''), (1, ''eta_1'')]"

datatype engine_result = Returns rat | Raises string

record environment =
  path_exists :: "string \<Rightarrow> bool"
  calculate_fid_given_paths :: "string \<Rightarrow> string \<Rightarrow> engine_result"
  user_input :: string

text \<open>
  The exceptions that end a run: \<open>KeyError\<close> and \<open>ValueError\<close> as Python names them, and
  \<open>No_present_value\<close> for the exception of lines 163-164 (and 188-189) on a column without
  a present value, whose class depends on the pandas version.
\<close>

datatype py_error = KeyError | ValueError | No_present_value

subsection \<open>Rows, tables and artifacts\<close>

text \<open>A row of \<open>results\<close>: the dictionary with the keys \<open>steps\<close>, \<open>eta\<close> and \<open>fid\<close>.\<close>

record result_record =
  steps :: int
  eta :: rat
  fid :: "rat option"

text \<open>
  A standard deviation is the square root of an exact rational; it is kept as that
  rational under the root, and \<open>surd_value\<close> is the number it denotes.
\<close>

datatype surd = Sqrt rat

fun surd_value :: "surd \<Rightarrow> real" where
  "surd_value (Sqrt q) = sqrt (of_rat q)"

record pivot_table =
  pt_index :: "int list"
  pt_columns :: "rat list"
  pt_values :: "rat option list list"

record summary_sheet =
  best_fid :: "rat option"
  worst_fid :: "rat option"
  mean_fid :: "rat option"
  std_fid :: "surd option"

record workbook =
  sheet_FID_Table :: pivot_table
  sheet_Raw_Data :: "result_record list"
  sheet_Summary :: summary_sheet
  sheet_Avg_by_Eta :: "(rat \<times> rat option) list"
  sheet_Avg_by_Steps :: "(int \<times> rat option) list"

datatype txt_item =
    Txt_Table pivot_table
  | Txt_Best result_record
  | Txt_Worst result_record
  | Txt_Avg_Eta rat "rat option"
  | Txt_Avg_Steps int "rat option"

datatype message =
    Banner string string "int list" "rat list"
  | Samples_path_not_found string
  | Reference_path_not_found string
  | Progress nat nat int rat string
  | Folder_not_found
  | FID_Score rat
  | Error_message string
  | All_calculations_completed
  | Table_shown pivot_table
  | Excel_file_saved
  | CSV_file_saved
  | Text_file_saved
  | Summary_shown result_record result_record "rat option" "surd option"

record run_state =
  stdout :: "message list"
  engine_calls :: "(string \<times> string) list"
  results :: "result_record list"
  current :: nat
  xlsx_file :: "workbook option"
  csv_file :: "pivot_table option"
  txt_file :: "txt_item list option"

definition initial_state :: run_state where
  "initial_state =
     \<lparr>stdout = [], engine_calls = [], results = [], current = 0,
      xlsx_file = None, csv_file = None, txt_file = None\<rparr>"

definition print :: "message \<Rightarrow> run_state \<Rightarrow> run_state" where
  "print m st = st\<lparr>stdout := stdout st @ [m]\<rparr>"

definition append_result :: "int \<Rightarrow> rat \<Rightarrow> rat option \<Rightarrow> run_state \<Rightarrow> run_state" where
  "append_result s e v st = st\<lparr>results := results st @ [\<lparr>steps = s, eta = e, fid = v\<rparr>]\<rparr>"

datatype outcome = Completed | Returned_early | Raised py_error

subsection \<open>Strings and paths\<close>

definition digit_char :: "nat \<Rightarrow> char" where
  "digit_char d = ''0123456789'' ! d"

fun str_nat :: "nat \<Rightarrow> string" where
  "str_nat n = (if n < 10 then [digit_char n] else str_nat (n div 10) @ [digit_char (n mod 10)])"

declare str_nat.simps [simp del]

definition str_int :: "int \<Rightarrow> string" where
  "str_int i = (if i < 0 then CHR ''-'' # str_nat (nat (- i)) else str_nat (nat i))"

text \<open>\<open>os.path.join\<close> of two components on a POSIX system.\<close>

definition path_join :: "string \<Rightarrow> string \<Rightarrow> string" where
  "path_join a b =
     (if b \<noteq> [] \<and> hd b = CHR ''/'' then b
      else if a = [] \<or> last a = CHR ''/'' then a @ b
      else a @ ''/'' @ b)"

definition folder_name :: "int \<Rightarrow> string \<Rightarrow> string" where
  "folder_name s tok = ''steps_'' @ str_int s @ ''_'' @ tok"

definition sample_path :: "config \<Rightarrow> int \<Rightarrow> string \<Rightarrow> string" where
  "sample_path cfg s tok = path_join (samples_base_path cfg) (folder_name s tok)"

text \<open>\<open>user_input.lower() != 'y'\<close> of line 46: only \<open>y\<close> and \<open>Y\<close> lower to \<open>y\<close>.\<close>

definition declines :: "string \<Rightarrow> bool" where
  "declines a = (a \<noteq> ''y'' \<and> a \<noteq> ''Y'')"

subsection \<open>The sweep, lines 50-92\<close>

text \<open>
  One iteration of the inner loop. The lookup \<open>eta_to_folder[eta]\<close> of line 57 raises
  \<open>KeyError\<close> for a key that is not in the table; nothing in the loop catches it.
\<close>

definition sweep_point ::
  "config \<Rightarrow> environment \<Rightarrow> nat \<Rightarrow> int \<Rightarrow> rat \<Rightarrow> run_state \<Rightarrow> py_error option \<times> run_state" where
  "sweep_point cfg env total_configs s e st0 =
     (let st = st0\<lparr>current := current st0 + 1\<rparr> in
      case eta_to_folder e of
        None \<Rightarrow> (Some KeyError, st)
      | Some tok \<Rightarrow>
          (let p = sample_path cfg s tok;
               st1 = print (Progress (current st) total_configs s e (folder_name s tok)) st
           in if \<not> path_exists env p
              then (None, append_result s e None (print Folder_not_found st1))
              else
                (let st2 = st1\<lparr>engine_calls := engine_calls st1 @ [(reference_path cfg, p)]\<rparr>
                 in case calculate_fid_given_paths env (reference_path cfg) p of
                      Returns v \<Rightarrow> (None, append_result s e (Some v) (print (FID_Score v) st2))
                    | Raises msg \<Rightarrow> (None, append_result s e None (print (Error_message msg) st2)))))"

fun eta_loop ::
  "config \<Rightarrow> environment \<Rightarrow> nat \<Rightarrow> int \<Rightarrow> rat list \<Rightarrow> run_state \<Rightarrow> py_error option \<times> run_state" where
  "eta_loop cfg env total_configs s [] st = (None, st)"
| "eta_loop cfg env total_configs s (e # es) st =
     (case sweep_point cfg env total_configs s e st of
        (Some err, st') \<Rightarrow> (Some err, st')
      | (None, st') \<Rightarrow> eta_loop cfg env total_configs s es st')"

fun steps_loop ::
  "config \<Rightarrow> environment \<Rightarrow> nat \<Rightarrow> int list \<Rightarrow> run_state \<Rightarrow> py_error option \<times> run_state" where
  "steps_loop cfg env total_configs [] st = (None, st)"
| "steps_loop cfg env total_configs (s # ss) st =
     (case eta_loop cfg env total_configs s (eta_list cfg) st of
        (Some err, st') \<Rightarrow> (Some err, st')
      | (None, st') \<Rightarrow> steps_loop cfg env total_configs ss st')"

definition sweep :: "config \<Rightarrow> environment \<Rightarrow> run_state \<Rightarrow> py_error option \<times> run_state" where
  "sweep cfg env st =
     steps_loop cfg env (length (steps_list cfg) * length (eta_list cfg)) (steps_list cfg) st"

subsection \<open>pandas: reductions of a column\<close>

text \<open>
  pandas reductions skip missing entries (\<open>skipna=True\<close>). The minimum and the maximum
  treat a missing entry as the neutral filler and are missing themselves when nothing is
  present. The mean fills the missing entries with zero, sums, and divides by the number
  of present entries; \<open>Series.std()\<close> has \<open>ddof=1\<close>, masks the squared deviations of the
  missing entries, divides by the count minus one, and is \<open>NaN\<close> when the count is at
  most one.
\<close>

fun min_skipna :: "rat option \<Rightarrow> rat option \<Rightarrow> rat option" where
  "min_skipna None acc = acc"
| "min_skipna (Some x) None = Some x"
| "min_skipna (Some x) (Some y) = Some (min x y)"

fun max_skipna :: "rat option \<Rightarrow> rat option \<Rightarrow> rat option" where
  "max_skipna None acc = acc"
| "max_skipna (Some x) None = Some x"
| "max_skipna (Some x) (Some y) = Some (max x y)"

definition series_min :: "rat option list \<Rightarrow> rat option" where
  "series_min xs = fold min_skipna xs None"

definition series_max :: "rat option list \<Rightarrow> rat option" where
  "series_max xs = fold max_skipna xs None"

fun fill_zero :: "rat option \<Rightarrow> rat" where
  "fill_zero None = 0"
| "fill_zero (Some v) = v"

definition count_notna :: "rat option list \<Rightarrow> nat" where
  "count_notna xs = length (filter (\<lambda>x. x \<noteq> None) xs)"

definition series_mean :: "rat option list \<Rightarrow> rat option" where
  "series_mean xs =
     (let n = count_notna xs in
      if n = 0 then None else Some (sum_list (map fill_zero xs) / of_nat n))"

fun masked_sqr :: "rat \<Rightarrow> rat option \<Rightarrow> rat" where
  "masked_sqr avg None = 0"
| "masked_sqr avg (Some v) = (avg - v) ^ 2"

definition series_var :: "rat option list \<Rightarrow> rat option" where
  "series_var xs =
     (let n = count_notna xs in
      if n \<le> 1 then None
      else (let avg = sum_list (map fill_zero xs) / of_nat n in
            Some (sum_list (map (masked_sqr avg) xs) / of_nat (n - 1))))"

definition series_std :: "rat option list \<Rightarrow> surd option" where
  "series_std xs = map_option Sqrt (series_var xs)"

text \<open>
  \<open>idxmin\<close> and \<open>idxmax\<close> scan the column once and keep the first position of the extreme
  present value. On the default index the label is the position, and \<open>df.loc\<close> of lines
  164 and 166 takes the row at it. A column with no present value (here: every \<open>fid\<close> is
  \<open>None\<close>) has no such position, and no row is selected: depending on the pandas version
  \<open>idxmin\<close> itself raises (\<open>TypeError\<close> or \<open>ValueError\<close>) or returns \<open>NaN\<close>, on which
  \<open>df.loc\<close> of the next line raises \<open>KeyError\<close>. The two lines are one step here, and
  its exception is \<open>No_present_value\<close> whatever its class.
\<close>

fun argmin_from :: "nat \<Rightarrow> rat option list \<Rightarrow> (nat \<times> rat) option \<Rightarrow> (nat \<times> rat) option" where
  "argmin_from i [] acc = acc"
| "argmin_from i (None # xs) acc = argmin_from (Suc i) xs acc"
| "argmin_from i (Some x # xs) acc =
     argmin_from (Suc i) xs
       (case acc of None \<Rightarrow> Some (i, x)
        | Some (j, y) \<Rightarrow> if x < y then Some (i, x) else Some (j, y))"

fun argmax_from :: "nat \<Rightarrow> rat option list \<Rightarrow> (nat \<times> rat) option \<Rightarrow> (nat \<times> rat) option" where
  "argmax_from i [] acc = acc"
| "argmax_from i (None # xs) acc = argmax_from (Suc i) xs acc"
| "argmax_from i (Some x # xs) acc =
     argmax_from (Suc i) xs
       (case acc of None \<Rightarrow> Some (i, x)
        | Some (j, y) \<Rightarrow> if y < x then Some (i, x) else Some (j, y))"

definition idxmin :: "rat option list \<Rightarrow> py_error + nat" where
  "idxmin xs = (case argmin_from 0 xs None of None \<Rightarrow> Inl No_present_value | Some (i, v) \<Rightarrow> Inr i)"

definition idxmax :: "rat option list \<Rightarrow> py_error + nat" where
  "idxmax xs = (case argmax_from 0 xs None of None \<Rightarrow> Inl No_present_value | Some (i, v) \<Rightarrow> Inr i)"

subsection \<open>pandas: pivot and groupby\<close>

text \<open>
  \<open>df.pivot(index='steps', columns='eta', values='fid')\<close>: one row per distinct \<open>steps\<close>,
  one column per distinct \<open>eta\<close>, both in ascending order of the key (pivot reshapes
  through a sorted index), the cell of a pair holding the \<open>fid\<close> of its row in \<open>df\<close>.
  A frame built from an empty list has no column \<open>steps\<close> (\<open>KeyError\<close>); a pair that
  occurs twice cannot be reshaped (\<open>ValueError\<close>).
\<close>

definition cell :: "result_record list \<Rightarrow> int \<Rightarrow> rat \<Rightarrow> rat option" where
  "cell df s e =
     (case find (\<lambda>r. steps r = s \<and> eta r = e) df of None \<Rightarrow> None | Some r \<Rightarrow> fid r)"

definition pivot :: "result_record list \<Rightarrow> py_error + pivot_table" where
  "pivot df =
     (if df = [] then Inl KeyError
      else if \<not> distinct (map (\<lambda>r. (steps r, eta r)) df) then Inl ValueError
      else (let idx = sort (remdups (map steps df));
                cols = sort (remdups (map eta df))
            in Inr \<lparr>pt_index = idx, pt_columns = cols,
                    pt_values = map (\<lambda>s. map (cell df s) cols) idx\<rparr>))"

definition sort_index :: "pivot_table \<Rightarrow> pivot_table" where
  "sort_index pt =
     (let rows = sort_key fst (zip (pt_index pt) (pt_values pt))
      in pt\<lparr>pt_index := map fst rows, pt_values := map snd rows\<rparr>)"

text \<open>
  \<open>df[df[key] == k]['fid'].mean()\<close> of lines 175 and 180, and
  \<open>df.groupby(key)['fid'].mean().reset_index()\<close> of lines 134 and 139: groupby lists the
  groups in ascending order of the key.
\<close>

definition mean_where :: "(result_record \<Rightarrow> 'k) \<Rightarrow> 'k \<Rightarrow> result_record list \<Rightarrow> rat option" where
  "mean_where key k df = series_mean (map fid (filter (\<lambda>r. key r = k) df))"

definition groupby_mean ::
  "(result_record \<Rightarrow> 'k::linorder) \<Rightarrow> result_record list \<Rightarrow> ('k \<times> rat option) list" where
  "groupby_mean key df =
     map (\<lambda>k. (k, series_mean (map fid (filter (\<lambda>r. key r = k) df))))
       (sort (remdups (map key df)))"

subsection \<open>The report, lines 98-198\<close>

definition summary :: "result_record list \<Rightarrow> summary_sheet" where
  "summary df =
     \<lparr>best_fid = series_min (map fid df), worst_fid = series_max (map fid df),
      mean_fid = series_mean (map fid df), std_fid = series_std (map fid df)\<rparr>"

definition make_workbook :: "pivot_table \<Rightarrow> result_record list \<Rightarrow> workbook" where
  "make_workbook pt df =
     \<lparr>sheet_FID_Table = pt, sheet_Raw_Data = df, sheet_Summary = summary df,
      sheet_Avg_by_Eta = groupby_mean eta df, sheet_Avg_by_Steps = groupby_mean steps df\<rparr>"

definition txt_averages :: "config \<Rightarrow> result_record list \<Rightarrow> txt_item list" where
  "txt_averages cfg df =
     map (\<lambda>e. Txt_Avg_Eta e (mean_where eta e df)) (eta_list cfg) @
     map (\<lambda>s. Txt_Avg_Steps s (mean_where steps s df)) (steps_list cfg)"



text \<open>
  The text file is opened and the table written (lines 152-160) before line 163 selects the
  best row; an exception there leaves the file with the table only. Lines 188-197 select
  the best and the worst row once more for the console.
\<close>

definition report :: "config \<Rightarrow> run_state \<Rightarrow> outcome \<times> run_state" where
  "report cfg st =
     (let df = results st in
      case pivot df of
        Inl err \<Rightarrow> (Raised err, st)
      | Inr pt0 \<Rightarrow>
          (let pt = sort_index pt0;
               st1 = print (Table_shown pt) st;
               st2 = print Excel_file_saved (st1\<lparr>xlsx_file := Some (make_workbook pt df)\<rparr>);
               st3 = print CSV_file_saved (st2\<lparr>csv_file := Some pt\<rparr>);
               st4 = st3\<lparr>txt_file := Some [Txt_Table pt]\<rparr>
           in case idxmin (map fid df) of
                Inl err \<Rightarrow> (Raised err, st4)
              | Inr best_idx \<Rightarrow>
                  (case idxmax (map fid df) of
                     Inl err \<Rightarrow> (Raised err, st4)
                   | Inr worst_idx \<Rightarrow>
                       (let st5 = print Text_file_saved
                              (st4\<lparr>txt_file :=
                                 Some ([Txt_Table pt, Txt_Best (df ! best_idx),
                                        Txt_Worst (df ! worst_idx)] @ txt_averages cfg df)\<rparr>)
                        in case idxmin (map fid df) of
                             Inl err \<Rightarrow> (Raised err, st5)
                           | Inr best_idx2 \<Rightarrow>
                               (case idxmax (map fid df) of
                                  Inl err \<Rightarrow> (Raised err, st5)
                                | Inr worst_idx2 \<Rightarrow>
                                    (Completed,
                                     print (Summary_shown (df ! best_idx2) (df ! worst_idx2)
                                              (series_mean (map fid df))
                                              (series_std (map fid df))) st5))))))"

subsection \<open>\<open>main\<close>\<close>

definition main :: "config \<Rightarrow> environment \<Rightarrow> outcome \<times> run_state" where
  "main cfg env =
     (let st0 = print (Banner (reference_path cfg) (samples_base_path cfg)
                         (steps_list cfg) (eta_list cfg)) initial_state
      in if \<not> path_exists env (samples_base_path cfg)
         then (Returned_early, print (Samples_path_not_found (samples_base_path cfg)) st0)
         else
           (let reference_missing = \<not> path_exists env (reference_path cfg);
                st1 = (if reference_missing
                       then print (Reference_path_not_found (reference_path cfg)) st0
                       else st0)
            in if reference_missing \<and> declines (user_input env)
               then (Returned_early, st1)
               else (case sweep cfg env st1 of
                       (Some err, st2) \<Rightarrow> (Raised err, st2)
                     | (None, st2) \<Rightarrow> report cfg (print All_calculations_completed st2))))"

section \<open>Notions used in the statements\<close>

text \<open>
  The value stored for a grid point whose eta has the folder token \<open>tok\<close>: the engine's
  value when the directory exists and the engine returns, \<open>None\<close> otherwise.
\<close>

definition point_fid :: "config \<Rightarrow> environment \<Rightarrow> int \<Rightarrow> string \<Rightarrow> rat option" where
  "point_fid cfg env s tok =
     (if path_exists env (sample_path cfg s tok)
      then (case calculate_fid_given_paths env (reference_path cfg) (sample_path cfg s tok) of
              Returns v \<Rightarrow> Some v | Raises msg \<Rightarrow> None)
      else None)"

definition grid_record :: "config \<Rightarrow> environment \<Rightarrow> int \<Rightarrow> rat \<Rightarrow> result_record" where
  "grid_record cfg env s e =
     \<lparr>steps = s, eta = e,
      fid = (case eta_to_folder e of None \<Rightarrow> None | Some tok \<Rightarrow> point_fid cfg env s tok)\<rparr>"

definition point_calls :: "config \<Rightarrow> environment \<Rightarrow> int \<Rightarrow> rat \<Rightarrow> (string \<times> string) list" where
  "point_calls cfg env s e =
     (case eta_to_folder e of
        None \<Rightarrow> []
      | Some tok \<Rightarrow>
          if path_exists env (sample_path cfg s tok)
          then [(reference_path cfg, sample_path cfg s tok)] else [])"

definition no_files :: "run_state \<Rightarrow> bool" where
  "no_files st = (xlsx_file st = None \<and> csv_file st = None \<and> txt_file st = None)"

text \<open>The checks of lines 38-47 let the run go on.\<close>

definition passes_path_checks :: "config \<Rightarrow> environment \<Rightarrow> bool" where
  "passes_path_checks cfg env =
     (path_exists env (samples_base_path cfg) \<and>
      (path_exists env (reference_path cfg) \<or> \<not> declines (user_input env)))"

text \<open>The state in which line 50 is reached, when it is.\<close>

definition state_before_sweep :: "config \<Rightarrow> environment \<Rightarrow> run_state" where
  "state_before_sweep cfg env =
     (let st0 = print (Banner (reference_path cfg) (samples_base_path cfg)
                         (steps_list cfg) (eta_list cfg)) initial_state
      in if \<not> path_exists env (reference_path cfg)
         then print (Reference_path_not_found (reference_path cfg)) st0
         else st0)"

definition config_point :: "result_record \<Rightarrow> int \<times> rat" where
  "config_point r = (steps r, eta r)"

text \<open>The present entries of a column, in their order.\<close>

fun present :: "'a option list \<Rightarrow> 'a list" where
  "present [] = []"
| "present (None # xs) = present xs"
| "present (Some v # xs) = v # present xs"

text \<open>The metrics of the rows that have one (the ok rows), in the order of the rows.\<close>

definition ok_metrics :: "result_record list \<Rightarrow> rat list" where
  "ok_metrics df = map (\<lambda>r. the (fid r)) (filter (\<lambda>r. fid r \<noteq> None) df)"

definition arithmetic_mean :: "rat list \<Rightarrow> rat option" where
  "arithmetic_mean vs = (if vs = [] then None else Some (sum_list vs / of_nat (length vs)))"

text \<open>The mean of the metrics of the ok rows that share the value \<open>k\<close> of an axis.\<close>

definition group_mean :: "(result_record \<Rightarrow> 'k) \<Rightarrow> 'k \<Rightarrow> result_record list \<Rightarrow> rat option" where
  "group_mean key k df = arithmetic_mean (ok_metrics (filter (\<lambda>r. key r = k) df))"

definition sample_variance :: "rat list \<Rightarrow> rat option" where
  "sample_variance vs =
     (if length vs < 2 then None
      else Some (sum_list (map (\<lambda>v. (v - sum_list vs / of_nat (length vs)) ^ 2) vs)
                 / of_nat (length vs - 1)))"

subsection \<open>Concrete runs\<close>

text \<open>
  Two step counts and two eta values. The directory of (20, 1.0) is absent, the engine
  raises on (10, 1.0) and returns 3 and 4 on (10, 0) and (20, 0).
\<close>

definition scenario_config :: config where
  "scenario_config =
     \<lparr>reference_path = ''./data/afhq/eval'', samples_base_path = ''./samples'',
      steps_list = [10, 20], eta_list = [0, 1]\<rparr>"

definition scenario_env :: environment where
  "scenario_env =
     \<lparr>path_exists = (\<lambda>p. p \<in> set [''./samples'', ''./data/afhq/eval'',
          ''./samples/steps_10_eta_0'', ''./samples/steps_10_eta_1'',
          ''./samples/steps_20_eta_0'']),
      calculate_fid_given_paths =
        (\<lambda>r p. if p = ''./samples/steps_10_eta_0'' then Returns 3
                else if p = ''./samples/steps_20_eta_0'' then Returns 4
                else Raises ''engine failure''),
      user_input = []\<rparr>"

text \<open>The same file system with the directory of (10, 1.0) absent as well.\<close>

definition scenario_env_missing :: environment where
  "scenario_env_missing =
     scenario_env\<lparr>path_exists := (\<lambda>p. p \<in> set [''./samples'', ''./data/afhq/eval'',
          ''./samples/steps_10_eta_0'', ''./samples/steps_20_eta_0''])\<rparr>"

text \<open>The eta list in descending order; an eta list with a value that has no token.\<close>

definition descending_config :: config where
  "descending_config = scenario_config\<lparr>eta_list := [1, 0]\<rparr>"

definition unknown_eta_config :: config where
  "unknown_eta_config = scenario_config\<lparr>steps_list := [10], eta_list := [0, 3 / 10]\<rparr>"

text \<open>The samples root exists and holds no directory of the grid; no path exists.\<close>

definition empty_samples_env :: environment where
  "empty_samples_env =
     \<lparr>path_exists = (\<lambda>p. p \<in> set [''./samples'', ''./data/afhq/eval'']),
      calculate_fid_given_paths = (\<lambda>r p. Raises ''no images''),
      user_input = []\<rparr>"

definition no_paths_env :: environment where
  "no_paths_env =
     \<lparr>path_exists = (\<lambda>p. False),
      calculate_fid_given_paths = (\<lambda>r p. Returns 1),
      user_input = ''y''\<rparr>"

text \<open>The rows of the scenario above, and the single row of a one-point grid.\<close>

definition scenario_rows :: "result_record list" where
  "scenario_rows =
     [\<lparr>steps = 10, eta = 0, fid = Some 3\<rparr>, \<lparr>steps = 10, eta = 1, fid = None\<rparr>,
      \<lparr>steps = 20, eta = 0, fid = Some 4\<rparr>, \<lparr>steps = 20, eta = 1, fid = None\<rparr>]"

definition single_row :: "result_record list" where
  "single_row = [\<lparr>steps = 10, eta = 0, fid = Some 5\<rparr>]"

text \<open>The rows of the same scenario when the eta list is [1.0, 0].\<close>

definition descending_rows :: "result_record list" where
  "descending_rows =
     [\<lparr>steps = 10, eta = 1, fid = None\<rparr>, \<lparr>steps = 10, eta = 0, fid = Some 3\<rparr>,
      \<lparr>steps = 20, eta = 1, fid = None\<rparr>, \<lparr>steps = 20, eta = 0, fid = Some 4\<rparr>]"

text \<open>
  Rows in which the smallest and the largest metric each occur twice, after a missing one.
\<close>

definition tied_rows :: "result_record list" where
  "tied_rows =
     [\<lparr>steps = 10, eta = 0, fid = None\<rparr>,
      \<lparr>steps = 10, eta = 2 / 10, fid = Some 3\<rparr>,
      \<lparr>steps = 10, eta = 5 / 10, fid = Some 3\<rparr>,
      \<lparr>steps = 10, eta = 1, fid = Some 7\<rparr>,
      \<lparr>steps = 20, eta = 0, fid = Some 7\<rparr>,
      \<lparr>steps = 20, eta = 2 / 10, fid = Some 5\<rparr>]"

text \<open>A state whose rows are the tied rows.\<close>

definition tied_state :: run_state where
  "tied_state = initial_state\<lparr>results := tied_rows\<rparr>"

text \<open>
  A grid of one point, whose directory exists and on which the engine returns 0.015625,
  that is 1/64.
\<close>

definition one_point_config :: config where
  "one_point_config = scenario_config\<lparr>steps_list := [10], eta_list := [0]\<rparr>"

definition one_point_env :: environment where
  "one_point_env =
     \<lparr>path_exists = (\<lambda>p. p \<in> set [''./samples'', ''./data/afhq/eval'',
          ''./samples/steps_10_eta_0'']),
      calculate_fid_given_paths = (\<lambda>r p. Returns (1 / 64)),
      user_input = []\<rparr>"

section \<open>Verification\<close>

subsection \<open>The loops\<close>

lemma sweep_point_known:
  assumes "eta_to_folder e = Some tok"
  shows "fst (sweep_point cfg env t s e st) = None"
    and "results (snd (sweep_point cfg env t s e st)) = results st @ [grid_record cfg env s e]"
    and "engine_calls (snd (sweep_point cfg env t s e st)) = engine_calls st @ point_calls cfg env s e"
    and "no_files (snd (sweep_point cfg env t s e st)) = no_files st"
  using assms
  by (auto simp: sweep_point_def Let_def print_def append_result_def grid_record_def
      point_fid_def point_calls_def no_files_def split: engine_result.splits)

lemma sweep_point_unknown:
  assumes "eta_to_folder e = None"
  shows "fst (sweep_point cfg env t s e st) = Some KeyError"
    and "results (snd (sweep_point cfg env t s e st)) = results st"
    and "engine_calls (snd (sweep_point cfg env t s e st)) = engine_calls st"
    and "no_files (snd (sweep_point cfg env t s e st)) = no_files st"
  using assms by (auto simp: sweep_point_def Let_def no_files_def)

lemma eta_loop_Cons:
  "eta_loop cfg env t s (e # es) st =
     (if eta_to_folder e = None then sweep_point cfg env t s e st
      else eta_loop cfg env t s es (snd (sweep_point cfg env t s e st)))"
  using sweep_point_known(1)[of e _ cfg env t s st] sweep_point_unknown(1)[of e cfg env t s st]
  by (cases "sweep_point cfg env t s e st") (auto split: option.splits)

lemma eta_loop_known:
  assumes "\<forall>e \<in> set es. eta_to_folder e \<noteq> None"
  shows "fst (eta_loop cfg env t s es st) = None \<and>
         results (snd (eta_loop cfg env t s es st)) = results st @ map (grid_record cfg env s) es \<and>
         engine_calls (snd (eta_loop cfg env t s es st)) =
           engine_calls st @ concat (map (point_calls cfg env s) es) \<and>
         no_files (snd (eta_loop cfg env t s es st)) = no_files st"
  using assms
proof (induction es arbitrary: st)
  case Nil
  then show ?case by simp
next
  case (Cons e es)
  then obtain tok where tok: "eta_to_folder e = Some tok" by auto
  from Cons have "\<forall>e \<in> set es. eta_to_folder e \<noteq> None" by simp
  note IH = Cons.IH[OF this, of "snd (sweep_point cfg env t s e st)"]
  show ?case
    unfolding eta_loop_Cons using tok IH by (simp add: sweep_point_known[OF tok])
qed

lemma eta_loop_unknown:
  assumes "\<forall>e \<in> set pre. eta_to_folder e \<noteq> None" and "eta_to_folder e = None"
  shows "fst (eta_loop cfg env t s (pre @ e # post) st) = Some KeyError \<and>
         results (snd (eta_loop cfg env t s (pre @ e # post) st)) =
           results st @ map (grid_record cfg env s) pre \<and>
         engine_calls (snd (eta_loop cfg env t s (pre @ e # post) st)) =
           engine_calls st @ concat (map (point_calls cfg env s) pre) \<and>
         no_files (snd (eta_loop cfg env t s (pre @ e # post) st)) = no_files st"
  using assms
proof (induction pre arbitrary: st)
  case Nil
  then show ?case by (simp add: eta_loop_Cons sweep_point_unknown del: eta_loop.simps)
next
  case (Cons a pre)
  then obtain tok where tok: "eta_to_folder a = Some tok" by auto
  from Cons have "\<forall>e \<in> set pre. eta_to_folder e \<noteq> None" by simp
  note IH = Cons.IH[OF this Cons.prems(2), of "snd (sweep_point cfg env t s a st)"]
  show ?case
    using tok IH by (simp add: eta_loop_Cons sweep_point_known[OF tok] del: eta_loop.simps)
qed

lemma eta_loop_None_known:
  "fst (eta_loop cfg env t s es st) = None \<Longrightarrow> \<forall>e \<in> set es. eta_to_folder e \<noteq> None"
proof (induction es arbitrary: st)
  case Nil
  then show ?case by simp
next
  case (Cons e es)
  then show ?case
    by (cases "eta_to_folder e = None")
      (auto simp: eta_loop_Cons sweep_point_unknown simp del: eta_loop.simps)
qed

lemma steps_loop_Cons:
  "steps_loop cfg env t (s # ss) st =
     (if fst (eta_loop cfg env t s (eta_list cfg) st) = None
      then steps_loop cfg env t ss (snd (eta_loop cfg env t s (eta_list cfg) st))
      else eta_loop cfg env t s (eta_list cfg) st)"
  by (cases "eta_loop cfg env t s (eta_list cfg) st") (auto split: option.splits)

lemma steps_loop_known:
  assumes "\<forall>e \<in> set (eta_list cfg). eta_to_folder e \<noteq> None"
  shows "fst (steps_loop cfg env t ss st) = None \<and>
         results (snd (steps_loop cfg env t ss st)) =
           results st @ concat (map (\<lambda>s. map (grid_record cfg env s) (eta_list cfg)) ss) \<and>
         engine_calls (snd (steps_loop cfg env t ss st)) =
           engine_calls st @ concat (map (\<lambda>s. concat (map (point_calls cfg env s) (eta_list cfg))) ss) \<and>
         no_files (snd (steps_loop cfg env t ss st)) = no_files st"
proof (induction ss arbitrary: st)
  case Nil
  then show ?case by simp
next
  case (Cons s ss)
  note E = eta_loop_known[OF assms, of cfg env t s st]
  show ?case
    unfolding steps_loop_Cons using E Cons.IH[of "snd (eta_loop cfg env t s (eta_list cfg) st)"]
    by simp
qed

lemma steps_loop_None_known:
  "fst (steps_loop cfg env t ss st) = None \<Longrightarrow> ss \<noteq> [] \<Longrightarrow>
     \<forall>e \<in> set (eta_list cfg). eta_to_folder e \<noteq> None"
  by (cases ss)
    (auto simp: steps_loop_Cons simp del: steps_loop.simps dest: eta_loop_None_known
      split: if_splits)


lemma sweep_known:
  assumes "\<forall>e \<in> set (eta_list cfg). eta_to_folder e \<noteq> None"
  shows "fst (sweep cfg env st) = None"
    and "results (snd (sweep cfg env st)) =
           results st @ concat (map (\<lambda>s. map (grid_record cfg env s) (eta_list cfg)) (steps_list cfg))"
    and "engine_calls (snd (sweep cfg env st)) =
           engine_calls st @
           concat (map (\<lambda>s. concat (map (point_calls cfg env s) (eta_list cfg))) (steps_list cfg))"
    and "no_files (snd (sweep cfg env st)) = no_files st"
  using steps_loop_known[OF assms] by (simp_all add: sweep_def)

lemma sweep_None_results:
  assumes "fst (sweep cfg env st) = None"
  shows "results (snd (sweep cfg env st)) =
           results st @ concat (map (\<lambda>s. map (grid_record cfg env s) (eta_list cfg)) (steps_list cfg))"
proof (cases "steps_list cfg = []")
  case True
  then show ?thesis by (simp add: sweep_def)
next
  case False
  with assms have "\<forall>e \<in> set (eta_list cfg). eta_to_folder e \<noteq> None"
    unfolding sweep_def by (rule steps_loop_None_known)
  then show ?thesis by (rule sweep_known)
qed

lemma config_point_grid:
  "map config_point (concat (map (\<lambda>s. map (grid_record cfg env s) es) ss)) = List.product ss es"
  by (induction ss) (simp_all add: config_point_def grid_record_def comp_def)

subsection \<open>One row per grid point\<close>

text \<open>
  Claim C1. The list \<open>results\<close> is empty before the loop (line 50). Whatever the file
  system holds and whatever the engine does on each point, the sweep goes through the
  whole grid whenever every eta value has a folder token; and whenever the sweep ends
  without an exception, \<open>results\<close> has one row per grid point, in grid order (steps
  outer, eta inner), so \<open>len(steps_list) * len(eta_list)\<close> rows, with no configuration
  point twice when neither input list repeats a value.
\<close>
theorem sweep_one_record_per_grid_point:
  assumes "results st = []"
  shows "((\<forall>e \<in> set (eta_list cfg). eta_to_folder e \<noteq> None) \<longrightarrow> fst (sweep cfg env st) = None) \<and>
         (fst (sweep cfg env st) = None \<longrightarrow>
            length (results (snd (sweep cfg env st))) = length (steps_list cfg) * length (eta_list cfg) \<and>
            map config_point (results (snd (sweep cfg env st))) =
              List.product (steps_list cfg) (eta_list cfg) \<and>
            (distinct (steps_list cfg) \<and> distinct (eta_list cfg) \<longrightarrow>
               distinct (map config_point (results (snd (sweep cfg env st))))))"
proof (intro conjI impI)
  assume "\<forall>e \<in> set (eta_list cfg). eta_to_folder e \<noteq> None"
  then show "fst (sweep cfg env st) = None" by (rule sweep_known)
next
  assume ok: "fst (sweep cfg env st) = None"
  have grid: "map config_point (results (snd (sweep cfg env st))) =
      List.product (steps_list cfg) (eta_list cfg)"
    using sweep_None_results[OF ok] assms by (simp add: config_point_grid)
  show "map config_point (results (snd (sweep cfg env st))) =
      List.product (steps_list cfg) (eta_list cfg)" by (rule grid)
  have "length (map config_point (results (snd (sweep cfg env st)))) =
      length (List.product (steps_list cfg) (eta_list cfg))"
    by (simp only: grid)
  then show "length (results (snd (sweep cfg env st))) =
      length (steps_list cfg) * length (eta_list cfg)" by simp
  assume "distinct (steps_list cfg) \<and> distinct (eta_list cfg)"
  then show "distinct (map config_point (results (snd (sweep cfg env st))))"
    by (simp only: grid distinct_product)
qed

lemma eta_to_folder_simps [simp]:
  "eta_to_folder 0 = Some ''eta_0''" "eta_to_folder 1 = Some ''eta_1''"
  "eta_to_folder (3 / 10) = None"
  by (simp_all add: eta_to_folder_def)

lemma str_int_10 [simp]: "str_int 10 = ''10''" "str_int 20 = ''20''"
  by (simp_all add: str_int_def str_nat.simps digit_char_def)

theorem sweep_one_record_per_grid_point_witness:
  "results initial_state = [] \<and>
   list_all (\<lambda>e. eta_to_folder e \<noteq> None) (eta_list scenario_config) \<and>
   fst (sweep scenario_config scenario_env initial_state) = None \<and>
   length (results (snd (sweep scenario_config scenario_env initial_state))) = 4 \<and>
   map config_point (results (snd (sweep scenario_config scenario_env initial_state))) =
     [(10, 0), (10, 1), (20, 0), (20, 1)] \<and>
   map fid (results (snd (sweep scenario_config scenario_env initial_state))) =
     [Some 3, None, Some 4, None]"
proof -
  have r: "results initial_state = []" by (simp add: initial_state_def)
  have k: "\<forall>e \<in> set (eta_list scenario_config). eta_to_folder e \<noteq> None"
    by (simp add: scenario_config_def)
  have f: "map fid (results (snd (sweep scenario_config scenario_env initial_state))) =
     [Some 3, None, Some 4, None]"
    using sweep_known(2)[OF k, of scenario_env initial_state]
    by (simp add: r grid_record_def point_fid_def scenario_config_def
        scenario_env_def sample_path_def path_join_def folder_name_def)
  show ?thesis
    using sweep_one_record_per_grid_point[OF r, of scenario_config scenario_env] r k f
    by (simp add: scenario_config_def list_all_iff)
qed

lemma state_before_sweep_fields [simp]:
  "results (state_before_sweep cfg env) = []"
  "engine_calls (state_before_sweep cfg env) = []"
  "no_files (state_before_sweep cfg env)"
  by (simp_all add: state_before_sweep_def Let_def print_def initial_state_def no_files_def)

lemma main_after_checks:
  assumes "passes_path_checks cfg env"
  shows "main cfg env =
     (case sweep cfg env (state_before_sweep cfg env) of
        (Some err, st2) \<Rightarrow> (Raised err, st2)
      | (None, st2) \<Rightarrow> report cfg (print All_calculations_completed st2))"
  using assms
  by (auto simp: main_def passes_path_checks_def state_before_sweep_def Let_def)

lemma main_raised_by_sweep:
  assumes "passes_path_checks cfg env" and "fst (sweep cfg env (state_before_sweep cfg env)) = Some err"
  shows "main cfg env = (Raised err, snd (sweep cfg env (state_before_sweep cfg env)))"
  using assms(2) unfolding main_after_checks[OF assms(1)]
  by (cases "sweep cfg env (state_before_sweep cfg env)") simp

lemma main_unknown_eta:
  assumes checks: "passes_path_checks cfg env"
    and steps: "steps_list cfg = s # ss"
    and etas: "eta_list cfg = pre @ e # post"
    and pre: "\<forall>x \<in> set pre. eta_to_folder x \<noteq> None"
    and e: "eta_to_folder e = None"
  shows "fst (main cfg env) = Raised KeyError"
    and "results (snd (main cfg env)) = map (grid_record cfg env s) pre"
    and "engine_calls (snd (main cfg env)) = concat (map (point_calls cfg env s) pre)"
    and "no_files (snd (main cfg env))"
proof -
  let ?st = "state_before_sweep cfg env"
  let ?t = "length (steps_list cfg) * length (eta_list cfg)"
  note L = eta_loop_unknown[OF pre e, of cfg env ?t s post ?st]
  have sw: "sweep cfg env ?st = eta_loop cfg env ?t s (pre @ e # post) ?st"
    using L by (simp add: sweep_def steps steps_loop_Cons etas del: steps_loop.simps)
  have "fst (sweep cfg env ?st) = Some KeyError" using L sw by simp
  from main_raised_by_sweep[OF checks this]
  have m: "main cfg env = (Raised KeyError, snd (eta_loop cfg env ?t s (pre @ e # post) ?st))"
    by (simp add: sw)
  show "fst (main cfg env) = Raised KeyError" by (simp add: m)
  show "results (snd (main cfg env)) = map (grid_record cfg env s) pre" using L by (simp add: m)
  show "engine_calls (snd (main cfg env)) = concat (map (point_calls cfg env s) pre)"
    using L by (simp add: m)
  show "no_files (snd (main cfg env))" using L by (simp add: m)
qed

subsection \<open>An eta value without a folder token\<close>

text \<open>
  Claim C2, as the code has it. Nothing validates the eta list before the loop. When the
  run is past the path checks, the steps list is not empty and the eta list holds a value
  that is not a key of \<open>eta_to_folder\<close>, the lookup of line 57 raises \<open>KeyError\<close> in
  the middle of the sweep, at the first such value in the row of the first steps value.
  By then every eta value before it in that row has its row in \<open>results\<close> and, where its
  directory exists, its engine invocation. None of the three files is written.
\<close>

theorem unknown_eta_raises_mid_sweep:
  assumes "passes_path_checks cfg env"
    and "steps_list cfg = s # ss"
    and "eta_list cfg = pre @ e # post"
    and "\<forall>x \<in> set pre. eta_to_folder x \<noteq> None"
    and "eta_to_folder e = None"
  shows "fst (main cfg env) = Raised KeyError \<and>
         results (snd (main cfg env)) = map (grid_record cfg env s) pre \<and>
         engine_calls (snd (main cfg env)) = concat (map (point_calls cfg env s) pre) \<and>
         xlsx_file (snd (main cfg env)) = None \<and>
         csv_file (snd (main cfg env)) = None \<and>
         txt_file (snd (main cfg env)) = None"
  using main_unknown_eta[OF assms] by (simp add: no_files_def)

lemma scenario_checks [simp]:
  "passes_path_checks scenario_config scenario_env"
  "passes_path_checks unknown_eta_config scenario_env"
  "passes_path_checks descending_config scenario_env"
  "passes_path_checks scenario_config scenario_env_missing"
  "passes_path_checks default_config empty_samples_env"
  by (simp_all add: passes_path_checks_def scenario_config_def scenario_env_def
      unknown_eta_config_def descending_config_def scenario_env_missing_def
      default_config_def empty_samples_env_def)

lemma unknown_eta_config_fields [simp]:
  "steps_list unknown_eta_config = [10]"
  "eta_list unknown_eta_config = [0, 3 / 10]"
  "reference_path unknown_eta_config = ''./data/afhq/eval''"
  "samples_base_path unknown_eta_config = ''./samples''"
  by (simp_all add: unknown_eta_config_def scenario_config_def)

lemma unknown_eta_run:
  "fst (main unknown_eta_config scenario_env) = Raised KeyError"
  "results (snd (main unknown_eta_config scenario_env)) = [\<lparr>steps = 10, eta = 0, fid = Some 3\<rparr>]"
  "engine_calls (snd (main unknown_eta_config scenario_env)) =
     [(''./data/afhq/eval'', ''./samples/steps_10_eta_0'')]"
proof -
  note M = main_unknown_eta[of unknown_eta_config scenario_env 10 "[]" "[0]" "3 / 10" "[]",
      OF scenario_checks(2)]
  show "fst (main unknown_eta_config scenario_env) = Raised KeyError"
    using M(1) by simp
  show "results (snd (main unknown_eta_config scenario_env)) = [\<lparr>steps = 10, eta = 0, fid = Some 3\<rparr>]"
    using M(2) by (simp add: grid_record_def point_fid_def scenario_env_def sample_path_def
        path_join_def folder_name_def)
  show "engine_calls (snd (main unknown_eta_config scenario_env)) =
     [(''./data/afhq/eval'', ''./samples/steps_10_eta_0'')]"
    using M(3) by (simp add: point_calls_def scenario_env_def sample_path_def
        path_join_def folder_name_def)
qed

text \<open>
  The theorem at the steps list [10] and the eta list [0, 0.3]: one row is there when the
  exception is raised.
\<close>

theorem unknown_eta_raises_mid_sweep_witness:
  "passes_path_checks unknown_eta_config scenario_env \<and>
   steps_list unknown_eta_config = [10] \<and>
   eta_list unknown_eta_config = [0] @ (3 / 10) # [] \<and>
   list_all (\<lambda>x. eta_to_folder x \<noteq> None) [0] \<and>
   eta_to_folder (3 / 10) = None \<and>
   fst (main unknown_eta_config scenario_env) = Raised KeyError \<and>
   length (results (snd (main unknown_eta_config scenario_env))) = 1 \<and>
   txt_file (snd (main unknown_eta_config scenario_env)) = None"
proof -
  have h1: "passes_path_checks unknown_eta_config scenario_env" by simp
  have h2: "steps_list unknown_eta_config = 10 # []" by simp
  have h3: "eta_list unknown_eta_config = [0] @ (3 / 10) # []" by simp
  have h4: "\<forall>x \<in> set [0]. eta_to_folder x \<noteq> None" by simp
  have h5: "eta_to_folder (3 / 10) = None" by simp
  show ?thesis
    using unknown_eta_raises_mid_sweep[OF h1 h2 h3 h4 h5] h1 h3 by simp
qed

text \<open>
  Claim C2 as stated fails: with the eta list [0, 0.3] the engine has been invoked on the
  directory of (10, 0) and its row has been stored before the exception for 0.3 is raised;
  the exception is a \<open>KeyError\<close> of the sweep, not an error before it.
\<close>

theorem unknown_eta_after_engine_call:
  "fst (main unknown_eta_config scenario_env) = Raised KeyError \<and>
   engine_calls (snd (main unknown_eta_config scenario_env)) =
     [(''./data/afhq/eval'', ''./samples/steps_10_eta_0'')] \<and>
   results (snd (main unknown_eta_config scenario_env)) = [\<lparr>steps = 10, eta = 0, fid = Some 3\<rparr>]"
  by (simp add: unknown_eta_run)

subsection \<open>The samples root is missing\<close>

text \<open>
  Claim C10. When the samples root does not exist (line 38) the run prints the banner and
  the error line and returns: the engine is never invoked, no row is produced and no file
  is written.
\<close>

theorem samples_path_missing_returns_early:
  assumes "\<not> path_exists env (samples_base_path cfg)"
  shows "main cfg env =
     (Returned_early,
      \<lparr>stdout = [Banner (reference_path cfg) (samples_base_path cfg) (steps_list cfg) (eta_list cfg),
                 Samples_path_not_found (samples_base_path cfg)],
       engine_calls = [], results = [], current = 0,
       xlsx_file = None, csv_file = None, txt_file = None\<rparr>)"
  using assms by (simp add: main_def Let_def print_def initial_state_def)

lemma default_config_fields [simp]:
  "steps_list default_config = [10, 20, 50, 100, 1000]"
  "eta_list default_config = [0, 2 / 10, 5 / 10, 1]"
  "reference_path default_config = ''./data/afhq/eval''"
  "samples_base_path default_config = ''./samples''"
  by (simp_all add: default_config_def)

text \<open>The theorem on the default configuration in a file system with no path at all.\<close>

theorem samples_path_missing_returns_early_witness:
  "\<not> path_exists no_paths_env (samples_base_path default_config) \<and>
   fst (main default_config no_paths_env) = Returned_early \<and>
   engine_calls (snd (main default_config no_paths_env)) = [] \<and>
   results (snd (main default_config no_paths_env)) = [] \<and>
   xlsx_file (snd (main default_config no_paths_env)) = None \<and>
   csv_file (snd (main default_config no_paths_env)) = None \<and>
   txt_file (snd (main default_config no_paths_env)) = None \<and>
   last (stdout (snd (main default_config no_paths_env))) = Samples_path_not_found ''./samples''"
proof -
  have h: "\<not> path_exists no_paths_env (samples_base_path default_config)"
    by (simp add: no_paths_env_def)
  show ?thesis
    using h by (simp add: samples_path_missing_returns_early[OF h])
qed


lemma report_keeps_sweep_fields:
  "results (snd (report cfg st)) = results st"
  "engine_calls (snd (report cfg st)) = engine_calls st"
  by (auto simp: report_def Let_def print_def split: sum.splits)

lemma main_known_results:
  assumes checks: "passes_path_checks cfg env"
    and known: "\<forall>e \<in> set (eta_list cfg). eta_to_folder e \<noteq> None"
  shows "results (snd (main cfg env)) =
           concat (map (\<lambda>s. map (grid_record cfg env s) (eta_list cfg)) (steps_list cfg))"
    and "engine_calls (snd (main cfg env)) =
           concat (map (\<lambda>s. concat (map (point_calls cfg env s) (eta_list cfg))) (steps_list cfg))"
proof -
  let ?sw = "sweep cfg env (state_before_sweep cfg env)"
  note K = sweep_known[OF known, of env "state_before_sweep cfg env"]
  have m: "main cfg env = report cfg (print All_calculations_completed (snd ?sw))"
    using K(1) unfolding main_after_checks[OF checks] by (cases ?sw) simp
  show "results (snd (main cfg env)) =
           concat (map (\<lambda>s. map (grid_record cfg env s) (eta_list cfg)) (steps_list cfg))"
    using K(2) by (simp add: m report_keeps_sweep_fields print_def)
  show "engine_calls (snd (main cfg env)) =
           concat (map (\<lambda>s. concat (map (point_calls cfg env s) (eta_list cfg))) (steps_list cfg))"
    using K(3) by (simp add: m report_keeps_sweep_fields print_def)
qed

lemma grid_as_product:
  "concat (map (\<lambda>s. map (f s) es) ss) = map (\<lambda>(s, e). f s e) (List.product ss es)"
  by (induction ss) simp_all

subsection \<open>What a row records\<close>

text \<open>
  Claim C5, as the code has it. A row has the three keys \<open>steps\<close>, \<open>eta\<close> and \<open>fid\<close>
  and no status. When the run is past the path checks and every eta value has a folder
  token, the rows are those of the grid in grid order, and \<open>fid\<close> is the engine's value
  when the directory exists and the engine returns, and \<open>None\<close> both when the directory
  is absent and when the engine raises.
\<close>

theorem record_holds_value_or_none:
  assumes "passes_path_checks cfg env"
    and "\<forall>e \<in> set (eta_list cfg). eta_to_folder e \<noteq> None"
  shows "results (snd (main cfg env)) =
     map (\<lambda>(s, e).
            \<lparr>steps = s, eta = e,
             fid = (if path_exists env (sample_path cfg s (the (eta_to_folder e)))
                    then (case calculate_fid_given_paths env (reference_path cfg)
                                 (sample_path cfg s (the (eta_to_folder e))) of
                            Returns v \<Rightarrow> Some v
                          | Raises msg \<Rightarrow> None)
                    else None)\<rparr>)
       (List.product (steps_list cfg) (eta_list cfg))"
proof -
  have "grid_record cfg env s e =
      \<lparr>steps = s, eta = e,
       fid = (if path_exists env (sample_path cfg s (the (eta_to_folder e)))
              then (case calculate_fid_given_paths env (reference_path cfg)
                           (sample_path cfg s (the (eta_to_folder e))) of
                      Returns v \<Rightarrow> Some v
                    | Raises msg \<Rightarrow> None)
              else None)\<rparr>"
    if "e \<in> set (eta_list cfg)" for s e
    using assms(2) that by (auto simp: grid_record_def point_fid_def)
  then show ?thesis
    unfolding main_known_results(1)[OF assms] grid_as_product
    by (auto simp: set_product)
qed

lemma scenario_config_fields [simp]:
  "steps_list scenario_config = [10, 20]"
  "eta_list scenario_config = [0, 1]"
  "reference_path scenario_config = ''./data/afhq/eval''"
  "samples_base_path scenario_config = ''./samples''"
  by (simp_all add: scenario_config_def)

lemma scenario_paths [simp]:
  "sample_path scenario_config 10 ''eta_0'' = ''./samples/steps_10_eta_0''"
  "sample_path scenario_config 10 ''eta_1'' = ''./samples/steps_10_eta_1''"
  "sample_path scenario_config 20 ''eta_0'' = ''./samples/steps_20_eta_0''"
  "sample_path scenario_config 20 ''eta_1'' = ''./samples/steps_20_eta_1''"
  by (simp_all add: sample_path_def path_join_def folder_name_def)

lemma scenario_env_fields [simp]:
  "path_exists scenario_env p =
     (p \<in> set [''./samples'', ''./data/afhq/eval'', ''./samples/steps_10_eta_0'',
        ''./samples/steps_10_eta_1'', ''./samples/steps_20_eta_0''])"
  "calculate_fid_given_paths scenario_env r p =
     (if p = ''./samples/steps_10_eta_0'' then Returns 3
      else if p = ''./samples/steps_20_eta_0'' then Returns 4
      else Raises ''engine failure'')"
  "path_exists scenario_env_missing p =
     (p \<in> set [''./samples'', ''./data/afhq/eval'', ''./samples/steps_10_eta_0'',
        ''./samples/steps_20_eta_0''])"
  "calculate_fid_given_paths scenario_env_missing = calculate_fid_given_paths scenario_env"
  by (simp_all add: scenario_env_def scenario_env_missing_def)

text \<open>
  The theorem on the scenario with steps [10, 20] and eta [0, 1.0]: the rows hold
  3, \<open>None\<close> (engine error), 4 and \<open>None\<close> (directory absent).
\<close>

theorem record_holds_value_or_none_witness:
  "passes_path_checks scenario_config scenario_env \<and>
   list_all (\<lambda>e. eta_to_folder e \<noteq> None) (eta_list scenario_config) \<and>
   results (snd (main scenario_config scenario_env)) =
     [\<lparr>steps = 10, eta = 0, fid = Some 3\<rparr>, \<lparr>steps = 10, eta = 1, fid = None\<rparr>,
      \<lparr>steps = 20, eta = 0, fid = Some 4\<rparr>, \<lparr>steps = 20, eta = 1, fid = None\<rparr>]"
proof -
  have h1: "passes_path_checks scenario_config scenario_env" by simp
  have h2: "\<forall>e \<in> set (eta_list scenario_config). eta_to_folder e \<noteq> None" by simp
  show ?thesis
    using h1 h2 by (simp add: record_holds_value_or_none[OF h1 h2])
qed

lemma scenario_missing_results:
  "results (snd (main scenario_config scenario_env_missing)) =
     [\<lparr>steps = 10, eta = 0, fid = Some 3\<rparr>, \<lparr>steps = 10, eta = 1, fid = None\<rparr>,
      \<lparr>steps = 20, eta = 0, fid = Some 4\<rparr>, \<lparr>steps = 20, eta = 1, fid = None\<rparr>]"
  "results (snd (main scenario_config scenario_env)) =
     [\<lparr>steps = 10, eta = 0, fid = Some 3\<rparr>, \<lparr>steps = 10, eta = 1, fid = None\<rparr>,
      \<lparr>steps = 20, eta = 0, fid = Some 4\<rparr>, \<lparr>steps = 20, eta = 1, fid = None\<rparr>]"
  by (simp_all add: main_known_results(1) grid_record_def point_fid_def)

text \<open>
  Claim C5 as stated fails: a run in which the engine raises on (10, 1.0) and a run in
  which the directory of (10, 1.0) is absent produce the same rows, so no field of a row
  tells a missing directory from an engine error.
\<close>

theorem missing_and_error_rows_coincide:
  "path_exists scenario_env ''./samples/steps_10_eta_1'' \<and>
   calculate_fid_given_paths scenario_env ''./data/afhq/eval'' ''./samples/steps_10_eta_1'' =
     Raises ''engine failure'' \<and>
   \<not> path_exists scenario_env_missing ''./samples/steps_10_eta_1'' \<and>
   results (snd (main scenario_config scenario_env)) =
     results (snd (main scenario_config scenario_env_missing))"
  by (simp add: scenario_missing_results)

subsection \<open>Best and worst row\<close>

lemma argmin_from_None:
  "argmin_from i xs acc = None \<longleftrightarrow> acc = None \<and> (\<forall>x \<in> set xs. x = None)"
  by (induction i xs acc rule: argmin_from.induct) (auto split: option.splits)

lemma argmin_from_Some:
  assumes "argmin_from i xs acc = Some (k, m)"
  shows "(acc = Some (k, m) \<or>
          (\<exists>l < length xs. k = i + l \<and> xs ! l = Some m \<and>
             (\<forall>l' < l. \<forall>v. xs ! l' = Some v \<longrightarrow> m < v) \<and>
             (\<forall>j y. acc = Some (j, y) \<longrightarrow> m < y))) \<and>
         (\<forall>v. Some v \<in> set xs \<longrightarrow> m \<le> v) \<and>
         (\<forall>j y. acc = Some (j, y) \<longrightarrow> m \<le> y)"
  using assms
proof (induction i xs acc rule: argmin_from.induct)
  case (1 i acc)
  then show ?case by auto
next
  case (2 i xs acc)
  from 2 have "argmin_from (Suc i) xs acc = Some (k, m)" by simp
  note IH = "2.IH"[OF this]
  show ?case
  proof (intro conjI)
    show "acc = Some (k, m) \<or>
      (\<exists>l<length (None # xs). k = i + l \<and> (None # xs) ! l = Some m \<and>
         (\<forall>l'<l. \<forall>v. (None # xs) ! l' = Some v \<longrightarrow> m < v) \<and>
         (\<forall>j y. acc = Some (j, y) \<longrightarrow> m < y))"
    proof (cases "acc = Some (k, m)")
      case True
      then show ?thesis by simp
    next
      case False
      with IH obtain l where l: "l < length xs" "k = Suc i + l" "xs ! l = Some m"
        "\<forall>l'<l. \<forall>v. xs ! l' = Some v \<longrightarrow> m < v" "\<forall>j y. acc = Some (j, y) \<longrightarrow> m < y"
        by blast
      have "\<forall>l'<Suc l. \<forall>v. (None # xs) ! l' = Some v \<longrightarrow> m < v"
        using l(4) by (auto simp: nth_Cons split: nat.splits)
      with l show ?thesis
        by (intro disjI2 exI[of _ "Suc l"]) simp
    qed
    show "\<forall>v. Some v \<in> set (None # xs) \<longrightarrow> m \<le> v" using IH by simp
    show "\<forall>j y. acc = Some (j, y) \<longrightarrow> m \<le> y" using IH by simp
  qed
next
  case (3 i x xs acc)
  let ?acc = "case acc of None \<Rightarrow> Some (i, x)
        | Some (j, y) \<Rightarrow> if x < y then Some (i, x) else Some (j, y)"
  from 3 have "argmin_from (Suc i) xs ?acc = Some (k, m)" by simp
  note IH = "3.IH"[OF this]
  have mx: "m \<le> x" using IH by (auto split: option.splits if_splits)
  have macc: "\<forall>j y. acc = Some (j, y) \<longrightarrow> m \<le> y"
    using IH by (auto split: option.splits if_splits)
  show ?case
  proof (intro conjI)
    show "\<forall>v. Some v \<in> set (Some x # xs) \<longrightarrow> m \<le> v" using IH mx by simp
    show "\<forall>j y. acc = Some (j, y) \<longrightarrow> m \<le> y" by (rule macc)
    show "acc = Some (k, m) \<or>
      (\<exists>l<length (Some x # xs). k = i + l \<and> (Some x # xs) ! l = Some m \<and>
         (\<forall>l'<l. \<forall>v. (Some x # xs) ! l' = Some v \<longrightarrow> m < v) \<and>
         (\<forall>j y. acc = Some (j, y) \<longrightarrow> m < y))"
    proof (cases "?acc = Some (k, m)")
      case True
      then show ?thesis
        by (cases acc) (auto split: if_splits intro!: exI[of _ 0])
    next
      case False
      with IH obtain l where l: "l < length xs" "k = Suc i + l" "xs ! l = Some m"
        "\<forall>l'<l. \<forall>v. xs ! l' = Some v \<longrightarrow> m < v" "\<forall>j y. ?acc = Some (j, y) \<longrightarrow> m < y"
        by blast
      have lt: "m < x" "\<forall>j y. acc = Some (j, y) \<longrightarrow> m < y"
        using l(5) by (auto split: option.splits if_splits)
      have "\<forall>l'<Suc l. \<forall>v. (Some x # xs) ! l' = Some v \<longrightarrow> m < v"
        using l(4) lt(1) by (auto simp: nth_Cons split: nat.splits)
      with l lt show ?thesis
        by (intro disjI2 exI[of _ "Suc l"]) simp
    qed
  qed
qed

lemma argmax_from_None:
  "argmax_from i xs acc = None \<longleftrightarrow> acc = None \<and> (\<forall>x \<in> set xs. x = None)"
  by (induction i xs acc rule: argmax_from.induct) (auto split: option.splits)

lemma argmax_from_Some:
  assumes "argmax_from i xs acc = Some (k, m)"
  shows "(acc = Some (k, m) \<or>
          (\<exists>l < length xs. k = i + l \<and> xs ! l = Some m \<and>
             (\<forall>l' < l. \<forall>v. xs ! l' = Some v \<longrightarrow> v < m) \<and>
             (\<forall>j y. acc = Some (j, y) \<longrightarrow> y < m))) \<and>
         (\<forall>v. Some v \<in> set xs \<longrightarrow> v \<le> m) \<and>
         (\<forall>j y. acc = Some (j, y) \<longrightarrow> y \<le> m)"
  using assms
proof (induction i xs acc rule: argmax_from.induct)
  case (1 i acc)
  then show ?case by auto
next
  case (2 i xs acc)
  from 2 have "argmax_from (Suc i) xs acc = Some (k, m)" by simp
  note IH = "2.IH"[OF this]
  show ?case
  proof (intro conjI)
    show "acc = Some (k, m) \<or>
      (\<exists>l<length (None # xs). k = i + l \<and> (None # xs) ! l = Some m \<and>
         (\<forall>l'<l. \<forall>v. (None # xs) ! l' = Some v \<longrightarrow> v < m) \<and>
         (\<forall>j y. acc = Some (j, y) \<longrightarrow> y < m))"
    proof (cases "acc = Some (k, m)")
      case True
      then show ?thesis by simp
    next
      case False
      with IH obtain l where l: "l < length xs" "k = Suc i + l" "xs ! l = Some m"
        "\<forall>l'<l. \<forall>v. xs ! l' = Some v \<longrightarrow> v < m" "\<forall>j y. acc = Some (j, y) \<longrightarrow> y < m"
        by blast
      have "\<forall>l'<Suc l. \<forall>v. (None # xs) ! l' = Some v \<longrightarrow> v < m"
        using l(4) by (auto simp: nth_Cons split: nat.splits)
      with l show ?thesis
        by (intro disjI2 exI[of _ "Suc l"]) simp
    qed
    show "\<forall>v. Some v \<in> set (None # xs) \<longrightarrow> v \<le> m" using IH by simp
    show "\<forall>j y. acc = Some (j, y) \<longrightarrow> y \<le> m" using IH by simp
  qed
next
  case (3 i x xs acc)
  let ?acc = "case acc of None \<Rightarrow> Some (i, x)
        | Some (j, y) \<Rightarrow> if y < x then Some (i, x) else Some (j, y)"
  from 3 have "argmax_from (Suc i) xs ?acc = Some (k, m)" by simp
  note IH = "3.IH"[OF this]
  have mx: "x \<le> m" using IH by (auto split: option.splits if_splits)
  have macc: "\<forall>j y. acc = Some (j, y) \<longrightarrow> y \<le> m"
    using IH by (auto split: option.splits if_splits)
  show ?case
  proof (intro conjI)
    show "\<forall>v. Some v \<in> set (Some x # xs) \<longrightarrow> v \<le> m" using IH mx by simp
    show "\<forall>j y. acc = Some (j, y) \<longrightarrow> y \<le> m" by (rule macc)
    show "acc = Some (k, m) \<or>
      (\<exists>l<length (Some x # xs). k = i + l \<and> (Some x # xs) ! l = Some m \<and>
         (\<forall>l'<l. \<forall>v. (Some x # xs) ! l' = Some v \<longrightarrow> v < m) \<and>
         (\<forall>j y. acc = Some (j, y) \<longrightarrow> y < m))"
    proof (cases "?acc = Some (k, m)")
      case True
      then show ?thesis
        by (cases acc) (auto split: if_splits intro!: exI[of _ 0])
    next
      case False
      with IH obtain l where l: "l < length xs" "k = Suc i + l" "xs ! l = Some m"
        "\<forall>l'<l. \<forall>v. xs ! l' = Some v \<longrightarrow> v < m" "\<forall>j y. ?acc = Some (j, y) \<longrightarrow> y < m"
        by blast
      have lt: "x < m" "\<forall>j y. acc = Some (j, y) \<longrightarrow> y < m"
        using l(5) by (auto split: option.splits if_splits)
      have "\<forall>l'<Suc l. \<forall>v. (Some x # xs) ! l' = Some v \<longrightarrow> v < m"
        using l(4) lt(1) by (auto simp: nth_Cons split: nat.splits)
      with l lt show ?thesis
        by (intro disjI2 exI[of _ "Suc l"]) simp
    qed
  qed
qed


lemma idxmin_Inr:
  assumes "idxmin xs = Inr i"
  shows "i < length xs \<and> (\<exists>m. xs ! i = Some m \<and> (\<forall>v. Some v \<in> set xs \<longrightarrow> m \<le> v) \<and>
           (\<forall>l < i. \<forall>v. xs ! l = Some v \<longrightarrow> m < v))"
proof -
  from assms obtain m where "argmin_from 0 xs None = Some (i, m)"
    by (auto simp: idxmin_def split: option.splits)
  from argmin_from_Some[OF this] show ?thesis by auto
qed

lemma idxmax_Inr:
  assumes "idxmax xs = Inr i"
  shows "i < length xs \<and> (\<exists>m. xs ! i = Some m \<and> (\<forall>v. Some v \<in> set xs \<longrightarrow> v \<le> m) \<and>
           (\<forall>l < i. \<forall>v. xs ! l = Some v \<longrightarrow> v < m))"
proof -
  from assms obtain m where "argmax_from 0 xs None = Some (i, m)"
    by (auto simp: idxmax_def split: option.splits)
  from argmax_from_Some[OF this] show ?thesis by auto
qed

lemma idxmin_Inl: "idxmin xs = Inl e \<longleftrightarrow> e = No_present_value \<and> (\<forall>x \<in> set xs. x = None)"
  using argmin_from_None[of 0 xs None] by (auto simp: idxmin_def split: option.splits)

lemma idxmax_Inl: "idxmax xs = Inl e \<longleftrightarrow> e = No_present_value \<and> (\<forall>x \<in> set xs. x = None)"
  using argmax_from_None[of 0 xs None] by (auto simp: idxmax_def split: option.splits)

lemma first_extremes:
  assumes "\<exists>r \<in> set df. fid r \<noteq> None"
  shows "\<exists>i j m M.
           idxmin (map fid df) = Inr i \<and> idxmax (map fid df) = Inr j \<and>
           i < length df \<and> j < length df \<and>
           fid (df ! i) = Some m \<and> fid (df ! j) = Some M \<and>
           (\<forall>r \<in> set df. \<forall>v. fid r = Some v \<longrightarrow> m \<le> v \<and> v \<le> M) \<and>
           (\<forall>l < i. fid (df ! l) \<noteq> Some m) \<and>
           (\<forall>l < j. fid (df ! l) \<noteq> Some M)"
proof -
  from assms have present: "\<not> (\<forall>x \<in> set (map fid df). x = None)" by auto
  have "\<And>e. idxmin (map fid df) \<noteq> Inl e" "\<And>e. idxmax (map fid df) \<noteq> Inl e"
    using present by (simp_all only: idxmin_Inl idxmax_Inl) blast+
  then obtain i j where i: "idxmin (map fid df) = Inr i" and j: "idxmax (map fid df) = Inr j"
    by (metis sum.exhaust)
  from idxmin_Inr[OF i] obtain m where m: "i < length df" "fid (df ! i) = Some m"
    "\<forall>v. Some v \<in> set (map fid df) \<longrightarrow> m \<le> v"
    "\<forall>l < i. \<forall>v. map fid df ! l = Some v \<longrightarrow> m < v"
    by auto
  from idxmax_Inr[OF j] obtain M where M: "j < length df" "fid (df ! j) = Some M"
    "\<forall>v. Some v \<in> set (map fid df) \<longrightarrow> v \<le> M"
    "\<forall>l < j. \<forall>v. map fid df ! l = Some v \<longrightarrow> v < M"
    by auto
  have bounds: "\<forall>r \<in> set df. \<forall>v. fid r = Some v \<longrightarrow> m \<le> v \<and> v \<le> M"
  proof (intro ballI allI impI)
    fix r v assume "r \<in> set df" "fid r = Some v"
    then have "Some v \<in> set (map fid df)" by force
    with m(3) M(3) show "m \<le> v \<and> v \<le> M" by simp
  qed
  have first_min: "\<forall>l < i. fid (df ! l) \<noteq> Some m"
  proof (intro allI impI notI)
    fix l assume "l < i" "fid (df ! l) = Some m"
    moreover from \<open>l < i\<close> m(1) have "map fid df ! l = fid (df ! l)" by simp
    ultimately have "m < m" using m(4) by metis
    then show False by simp
  qed
  have first_max: "\<forall>l < j. fid (df ! l) \<noteq> Some M"
  proof (intro allI impI notI)
    fix l assume "l < j" "fid (df ! l) = Some M"
    moreover from \<open>l < j\<close> M(1) have "map fid df ! l = fid (df ! l)" by simp
    ultimately have "M < M" using M(4) by metis
    then show False by simp
  qed
  from i j m(1,2) M(1,2) bounds first_min first_max show ?thesis by blast
qed

subsection \<open>Summary statistics\<close>

lemma present_fid: "present (map fid df) = ok_metrics df"
proof (induction df)
  case Nil
  then show ?case by (simp add: ok_metrics_def)
next
  case (Cons r df)
  then show ?case by (cases "fid r") (simp_all add: ok_metrics_def)
qed

lemma fold_min_skipna:
  "fold min_skipna xs acc =
     (if present xs = [] then acc
      else case acc of
        None \<Rightarrow> Some (Min (set (present xs)))
      | Some a \<Rightarrow> Some (min a (Min (set (present xs)))))"
proof (induction xs arbitrary: acc rule: present.induct)
  case 1
  then show ?case by simp
next
  case (2 xs)
  then show ?case by (cases acc) simp_all
next
  case (3 v xs)
  show ?case
  proof (cases "present xs = []")
    case True
    then show ?thesis by (cases acc) (simp_all add: "3.IH" min.commute)
  next
    case False
    then have "set (present xs) \<noteq> {}" by simp
    with False show ?thesis
      by (cases acc) (simp_all add: "3.IH" min.commute min.left_commute)
  qed
qed

lemma fold_max_skipna:
  "fold max_skipna xs acc =
     (if present xs = [] then acc
      else case acc of
        None \<Rightarrow> Some (Max (set (present xs)))
      | Some a \<Rightarrow> Some (max a (Max (set (present xs)))))"
proof (induction xs arbitrary: acc rule: present.induct)
  case 1
  then show ?case by simp
next
  case (2 xs)
  then show ?case by (cases acc) simp_all
next
  case (3 v xs)
  show ?case
  proof (cases "present xs = []")
    case True
    then show ?thesis by (cases acc) (simp_all add: "3.IH" max.commute)
  next
    case False
    then have "set (present xs) \<noteq> {}" by simp
    with False show ?thesis
      by (cases acc) (simp_all add: "3.IH" max.commute max.left_commute)
  qed
qed

lemma sum_fill_zero: "sum_list (map fill_zero xs) = sum_list (present xs)"
  by (induction xs rule: present.induct) simp_all

lemma sum_masked_sqr:
  "sum_list (map (masked_sqr avg) xs) = sum_list (map (\<lambda>v. (v - avg) ^ 2) (present xs))"
  by (induction xs rule: present.induct) (simp_all add: power2_commute)

lemma count_notna_present: "count_notna xs = length (present xs)"
  by (induction xs rule: present.induct) (simp_all add: count_notna_def)

lemma series_min_ok:
  "series_min (map fid df) = (if ok_metrics df = [] then None else Some (Min (set (ok_metrics df))))"
  by (simp add: series_min_def fold_min_skipna present_fid)

lemma series_max_ok:
  "series_max (map fid df) = (if ok_metrics df = [] then None else Some (Max (set (ok_metrics df))))"
  by (simp add: series_max_def fold_max_skipna present_fid)

lemma series_mean_ok: "series_mean (map fid df) = arithmetic_mean (ok_metrics df)"
  unfolding series_mean_def arithmetic_mean_def count_notna_present sum_fill_zero present_fid
    Let_def
  by simp

lemma series_var_ok: "series_var (map fid df) = sample_variance (ok_metrics df)"
proof -
  have "length (ok_metrics df) \<le> 1 \<longleftrightarrow> length (ok_metrics df) < 2" by auto
  then show ?thesis
    unfolding series_var_def sample_variance_def count_notna_present sum_fill_zero
      sum_masked_sqr present_fid Let_def
    by simp
qed

lemma sample_variance_nonneg: "sample_variance vs = Some q \<Longrightarrow> 0 \<le> q"
  by (auto simp: sample_variance_def split: if_splits intro!: divide_nonneg_nonneg sum_list_nonneg)

lemma surd_value_sq: "0 \<le> q \<Longrightarrow> (surd_value (Sqrt q)) ^ 2 = of_rat q"
  by simp

text \<open>
  Claim C8. The four values of the Summary sheet (lines 122-130) are computed over the
  metrics of the rows that have one, the other rows being skipped: the minimum, the
  maximum, the arithmetic mean, and the standard deviation with divisor \<open>n - 1\<close>
  (\<open>ddof=1\<close>). The standard deviation is missing (\<open>NaN\<close>) when fewer than two rows have
  a metric; when it is there, its square times \<open>n - 1\<close> is the sum of the squared
  deviations from the mean. Arithmetic is exact here.
\<close>

theorem summary_over_ok_metrics:
  "summary df =
     \<lparr>best_fid = (if ok_metrics df = [] then None else Some (Min (set (ok_metrics df)))),
      worst_fid = (if ok_metrics df = [] then None else Some (Max (set (ok_metrics df)))),
      mean_fid = arithmetic_mean (ok_metrics df),
      std_fid = map_option Sqrt (sample_variance (ok_metrics df))\<rparr> \<and>
   (length (ok_metrics df) < 2 \<longrightarrow> std_fid (summary df) = None) \<and>
   (\<forall>s. std_fid (summary df) = Some s \<longrightarrow>
      2 \<le> length (ok_metrics df) \<and> 0 \<le> surd_value s \<and>
      (surd_value s) ^ 2 * of_nat (length (ok_metrics df) - 1) =
        of_rat (sum_list (map (\<lambda>v. (v - sum_list (ok_metrics df) / of_nat (length (ok_metrics df))) ^ 2)
                  (ok_metrics df))))"
proof (intro conjI allI impI)
  show eq: "summary df =
     \<lparr>best_fid = (if ok_metrics df = [] then None else Some (Min (set (ok_metrics df)))),
      worst_fid = (if ok_metrics df = [] then None else Some (Max (set (ok_metrics df)))),
      mean_fid = arithmetic_mean (ok_metrics df),
      std_fid = map_option Sqrt (sample_variance (ok_metrics df))\<rparr>"
    by (simp add: summary_def series_min_ok series_max_ok series_mean_ok series_std_def
        series_var_ok)
  show "std_fid (summary df) = None" if "length (ok_metrics df) < 2"
    using that by (simp add: eq sample_variance_def)
  fix s assume s: "std_fid (summary df) = Some s"
  then obtain q where q: "sample_variance (ok_metrics df) = Some q" "s = Sqrt q"
    by (auto simp: eq)
  from q(1) show "2 \<le> length (ok_metrics df)"
    by (simp add: sample_variance_def split: if_splits)
  then have n: "of_nat (length (ok_metrics df) - 1) \<noteq> (0::rat)" by simp
  have nonneg: "0 \<le> q" using q(1) by (rule sample_variance_nonneg)
  show "0 \<le> surd_value s" using nonneg by (simp add: q(2))
  have "q * of_nat (length (ok_metrics df) - 1) =
      sum_list (map (\<lambda>v. (v - sum_list (ok_metrics df) / of_nat (length (ok_metrics df))) ^ 2)
        (ok_metrics df))"
    using q(1) n by (auto simp: sample_variance_def split: if_splits)
  then have "(of_rat (q * of_nat (length (ok_metrics df) - 1)) :: real) =
      of_rat (sum_list (map (\<lambda>v. (v - sum_list (ok_metrics df) / of_nat (length (ok_metrics df))) ^ 2)
        (ok_metrics df)))" by simp
  then show "(surd_value s) ^ 2 * of_nat (length (ok_metrics df) - 1) =
        of_rat (sum_list (map (\<lambda>v. (v - sum_list (ok_metrics df) / of_nat (length (ok_metrics df))) ^ 2)
                  (ok_metrics df)))"
    using nonneg by (simp add: q(2) of_rat_mult)
qed

lemma example_ok_metrics [simp]:
  "ok_metrics single_row = [5]" "ok_metrics scenario_rows = [3, 4]"
  by (simp_all add: ok_metrics_def single_row_def scenario_rows_def)

text \<open>
  The theorem on a single row with metric 5 (no standard deviation) and on the rows of
  the scenario, whose metrics are 3 and 4.
\<close>

theorem summary_over_ok_metrics_witness:
  "length (ok_metrics single_row) < 2 \<and>
   summary single_row = \<lparr>best_fid = Some 5, worst_fid = Some 5, mean_fid = Some 5, std_fid = None\<rparr> \<and>
   summary scenario_rows =
     \<lparr>best_fid = Some 3, worst_fid = Some 4, mean_fid = Some (7 / 2), std_fid = Some (Sqrt (1 / 2))\<rparr> \<and>
   (surd_value (Sqrt (1 / 2))) ^ 2 * of_nat (length (ok_metrics scenario_rows) - 1) = 1 / 2"
proof -
  note A = summary_over_ok_metrics[of single_row]
  note B = summary_over_ok_metrics[of scenario_rows]
  have s1: "summary single_row =
      \<lparr>best_fid = Some 5, worst_fid = Some 5, mean_fid = Some 5, std_fid = None\<rparr>"
    using A by (simp add: arithmetic_mean_def sample_variance_def)
  have s2: "summary scenario_rows =
     \<lparr>best_fid = Some 3, worst_fid = Some 4, mean_fid = Some (7 / 2), std_fid = Some (Sqrt (1 / 2))\<rparr>"
    using B by (simp add: arithmetic_mean_def sample_variance_def power2_eq_square)
  from B s2 have "(surd_value (Sqrt (1 / 2))) ^ 2 * of_nat (length (ok_metrics scenario_rows) - 1) =
     of_rat (sum_list (map (\<lambda>v. (v - sum_list (ok_metrics scenario_rows) /
        of_nat (length (ok_metrics scenario_rows))) ^ 2) (ok_metrics scenario_rows)))"
    by simp
  then have "(surd_value (Sqrt (1 / 2))) ^ 2 * of_nat (length (ok_metrics scenario_rows) - 1) = 1 / 2"
    by (simp add: power2_eq_square of_rat_divide)
  with s1 s2 show ?thesis by simp
qed

subsection \<open>Runs that complete\<close>

lemma report_completes:
  assumes "pivot (results st) = Inr pt0"
    and "idxmin (map fid (results st)) = Inr i"
    and "idxmax (map fid (results st)) = Inr j"
  shows "fst (report cfg st) = Completed"
    and "xlsx_file (snd (report cfg st)) = Some (make_workbook (sort_index pt0) (results st))"
    and "csv_file (snd (report cfg st)) = Some (sort_index pt0)"
    and "txt_file (snd (report cfg st)) =
           Some ([Txt_Table (sort_index pt0), Txt_Best (results st ! i),
                  Txt_Worst (results st ! j)] @ txt_averages cfg (results st))"
  using assms by (simp_all add: report_def Let_def print_def)

lemma report_Completed:
  assumes "fst (report cfg st) = Completed"
  shows "\<exists>pt0 i j. pivot (results st) = Inr pt0 \<and> idxmin (map fid (results st)) = Inr i \<and>
           idxmax (map fid (results st)) = Inr j"
  using assms by (auto simp: report_def Let_def split: sum.splits)

lemma main_Completed_sweep:
  assumes "fst (main cfg env) = Completed"
  shows "passes_path_checks cfg env"
    and "fst (sweep cfg env (state_before_sweep cfg env)) = None"
    and "main cfg env =
           report cfg (print All_calculations_completed (snd (sweep cfg env (state_before_sweep cfg env))))"
proof -
  show checks: "passes_path_checks cfg env"
    using assms by (auto simp: main_def passes_path_checks_def Let_def split: if_splits)
  show sw: "fst (sweep cfg env (state_before_sweep cfg env)) = None"
    using assms unfolding main_after_checks[OF checks]
    by (cases "sweep cfg env (state_before_sweep cfg env)") (auto split: option.splits)
  show "main cfg env =
      report cfg (print All_calculations_completed (snd (sweep cfg env (state_before_sweep cfg env))))"
    using sw unfolding main_after_checks[OF checks]
    by (cases "sweep cfg env (state_before_sweep cfg env)") simp
qed

lemma main_Completed_results:
  assumes "fst (main cfg env) = Completed"
  shows "results (snd (main cfg env)) =
           concat (map (\<lambda>s. map (grid_record cfg env s) (eta_list cfg)) (steps_list cfg))"
  using sweep_None_results[OF main_Completed_sweep(2)[OF assms]]
  by (simp add: main_Completed_sweep(3)[OF assms] report_keeps_sweep_fields print_def)

lemma main_Completed_files:
  assumes "fst (main cfg env) = Completed"
  shows "\<exists>pt0 i j. pivot (results (snd (main cfg env))) = Inr pt0 \<and>
           idxmin (map fid (results (snd (main cfg env)))) = Inr i \<and>
           idxmax (map fid (results (snd (main cfg env)))) = Inr j \<and>
           xlsx_file (snd (main cfg env)) =
             Some (make_workbook (sort_index pt0) (results (snd (main cfg env)))) \<and>
           csv_file (snd (main cfg env)) = Some (sort_index pt0) \<and>
           txt_file (snd (main cfg env)) =
             Some ([Txt_Table (sort_index pt0), Txt_Best (results (snd (main cfg env)) ! i),
                    Txt_Worst (results (snd (main cfg env)) ! j)] @
                   txt_averages cfg (results (snd (main cfg env))))"
proof -
  let ?st = "print All_calculations_completed (snd (sweep cfg env (state_before_sweep cfg env)))"
  have m: "main cfg env = report cfg ?st" by (rule main_Completed_sweep(3)[OF assms])
  have r: "results (snd (main cfg env)) = results ?st"
    by (simp add: m report_keeps_sweep_fields)
  from assms have "fst (report cfg ?st) = Completed" by (simp add: m)
  from report_Completed[OF this] obtain pt0 i j where
    p: "pivot (results ?st) = Inr pt0" "idxmin (map fid (results ?st)) = Inr i"
       "idxmax (map fid (results ?st)) = Inr j" by blast
  note C = report_completes[OF p, of cfg]
  show ?thesis
    unfolding r using p C by (simp add: m)
qed

lemma product_empty_conv: "List.product xs ys = [] \<longleftrightarrow> xs = [] \<or> ys = []"
  by (induction xs) auto

lemma distinct_product_fst:
  assumes "ys \<noteq> []" and "distinct (List.product xs ys)"
  shows "distinct xs"
  using assms(2)
proof (induction xs)
  case Nil
  then show ?case by simp
next
  case (Cons x xs)
  from assms(1) obtain y where y: "y \<in> set ys" by (cases ys) auto
  have "x \<notin> set xs"
  proof
    assume "x \<in> set xs"
    with y have "(x, y) \<in> set (List.product xs ys)" by simp
    moreover from y have "(x, y) \<in> set (map (Pair x) ys)" by simp
    ultimately show False using Cons.prems by auto
  qed
  with Cons show ?case by simp
qed

lemma distinct_product_snd:
  assumes "xs \<noteq> []" and "distinct (List.product xs ys)"
  shows "distinct ys"
proof -
  from assms(1) obtain x xs' where "xs = x # xs'" by (cases xs) auto
  with assms(2) have "distinct (map (Pair x) ys)" by simp
  then show ?thesis by (simp add: distinct_map)
qed

lemma product_distinct_conv:
  assumes "distinct (List.product xs ys)" and "List.product xs ys \<noteq> []"
  shows "distinct xs \<and> distinct ys \<and> xs \<noteq> [] \<and> ys \<noteq> []"
  using assms distinct_product_fst[of ys xs] distinct_product_snd[of xs ys]
  by (auto simp: product_empty_conv)

lemma pivot_Inr:
  assumes "pivot df = Inr pt"
  shows "df \<noteq> []" and "distinct (map config_point df)"
    and "pt_index pt = sort (remdups (map steps df))"
    and "pt_columns pt = sort (remdups (map eta df))"
    and "pt_values pt = map (\<lambda>s. map (cell df s) (pt_columns pt)) (pt_index pt)"
  using assms
  by (auto simp: pivot_def Let_def config_point_def[abs_def] split: if_splits)

lemma grid_axes:
  "map steps (concat (map (\<lambda>s. map (grid_record cfg env s) es) ss)) =
     concat (map (\<lambda>s. map (\<lambda>e. s) es) ss)"
  "map eta (concat (map (\<lambda>s. map (grid_record cfg env s) es) ss)) =
     concat (map (\<lambda>s. es) ss)"
  by (induction ss) (simp_all add: grid_record_def comp_def)

lemma grid_axis_sets:
  "es \<noteq> [] \<Longrightarrow> set (map steps (concat (map (\<lambda>s. map (grid_record cfg env s) es) ss))) = set ss"
  "ss \<noteq> [] \<Longrightarrow> set (map eta (concat (map (\<lambda>s. map (grid_record cfg env s) es) ss))) = set es"
  unfolding grid_axes by (cases es; force)+

lemma sort_remdups_cong:
  assumes "set xs = set ys"
  shows "sort (remdups xs) = sort (remdups ys)"
proof (rule sorted_distinct_set_unique)
  show "set (sort (remdups xs)) = set (sort (remdups ys))" using assms by simp
qed simp_all

lemma main_Completed_grid:
  assumes "fst (main cfg env) = Completed"
  shows "distinct (steps_list cfg)" and "distinct (eta_list cfg)"
    and "steps_list cfg \<noteq> []" and "eta_list cfg \<noteq> []"
    and "sort (remdups (map steps (results (snd (main cfg env))))) = sort (steps_list cfg)"
    and "sort (remdups (map eta (results (snd (main cfg env))))) = sort (eta_list cfg)"
proof -
  let ?df = "results (snd (main cfg env))"
  note R = main_Completed_results[OF assms]
  from main_Completed_files[OF assms] obtain pt0 where "pivot ?df = Inr pt0" by blast
  from pivot_Inr(1,2)[OF this]
  have "List.product (steps_list cfg) (eta_list cfg) \<noteq> []"
    and "distinct (List.product (steps_list cfg) (eta_list cfg))"
    unfolding R config_point_grid by (auto simp: product_empty_conv)
  from product_distinct_conv[OF this(2,1)]
  show d: "distinct (steps_list cfg)" "distinct (eta_list cfg)"
    and ne: "steps_list cfg \<noteq> []" "eta_list cfg \<noteq> []" by blast+
  have "sort (remdups (map steps ?df)) = sort (remdups (steps_list cfg))"
    unfolding R by (rule sort_remdups_cong) (rule grid_axis_sets(1)[OF ne(2)])
  then show "sort (remdups (map steps ?df)) = sort (steps_list cfg)"
    using d(1) by (simp add: distinct_remdups_id)
  have "sort (remdups (map eta ?df)) = sort (remdups (eta_list cfg))"
    unfolding R by (rule sort_remdups_cong) (rule grid_axis_sets(2)[OF ne(1)])
  then show "sort (remdups (map eta ?df)) = sort (eta_list cfg)"
    using d(2) by (simp add: distinct_remdups_id)
qed

subsection \<open>Group averages\<close>

lemma mean_where_group_mean: "mean_where key k df = group_mean key k df"
  unfolding mean_where_def group_mean_def
  using series_mean_ok[of "filter (\<lambda>r. key r = k) df"] by simp

lemma groupby_mean_keys:
  "map fst (groupby_mean key df) = sort (remdups (map key df))"
  by (simp add: groupby_mean_def comp_def)

lemma groupby_mean_group_mean:
  "groupby_mean key df = map (\<lambda>k. (k, group_mean key k df)) (sort (remdups (map key df)))"
  by (simp add: groupby_mean_def mean_where_group_mean[unfolded mean_where_def])

text \<open>
  Claim C7, as the code has it. In a run that completes, each average is the arithmetic
  mean of the metrics of exactly the ok rows that share the axis value, and a group with no
  ok row has a missing average (\<open>NaN\<close>), not an error. The text report (lines 173-181)
  lists the averages in the order of the input lists. The workbook sheets \<open>Avg_by_Eta\<close> and
  \<open>Avg_by_Steps\<close> (lines 134-141) come from \<open>groupby\<close>, which lists the groups in ascending
  order of the key. Arithmetic is exact here.
\<close>

theorem group_averages:
  assumes "fst (main cfg env) = Completed"
  shows "(\<exists>wb items.
           xlsx_file (snd (main cfg env)) = Some wb \<and>
           txt_file (snd (main cfg env)) = Some items \<and>
           sheet_Avg_by_Eta wb =
             map (\<lambda>e. (e, group_mean eta e (results (snd (main cfg env))))) (sort (eta_list cfg)) \<and>
           sheet_Avg_by_Steps wb =
             map (\<lambda>s. (s, group_mean steps s (results (snd (main cfg env))))) (sort (steps_list cfg)) \<and>
           drop 3 items =
             map (\<lambda>e. Txt_Avg_Eta e (group_mean eta e (results (snd (main cfg env))))) (eta_list cfg) @
             map (\<lambda>s. Txt_Avg_Steps s (group_mean steps s (results (snd (main cfg env))))) (steps_list cfg)) \<and>
         (\<forall>e. ok_metrics (filter (\<lambda>r. eta r = e) (results (snd (main cfg env)))) = [] \<longrightarrow>
              group_mean eta e (results (snd (main cfg env))) = None) \<and>
         (\<forall>s. ok_metrics (filter (\<lambda>r. steps r = s) (results (snd (main cfg env)))) = [] \<longrightarrow>
              group_mean steps s (results (snd (main cfg env))) = None)"
proof -
  let ?df = "results (snd (main cfg env))"
  from main_Completed_files[OF assms] obtain pt0 i j where
    x: "xlsx_file (snd (main cfg env)) = Some (make_workbook (sort_index pt0) ?df)" and
    t: "txt_file (snd (main cfg env)) =
          Some ([Txt_Table (sort_index pt0), Txt_Best (?df ! i), Txt_Worst (?df ! j)] @
                txt_averages cfg ?df)"
    by blast
  note G = main_Completed_grid(5,6)[OF assms]
  have "sheet_Avg_by_Eta (make_workbook (sort_index pt0) ?df) =
      map (\<lambda>e. (e, group_mean eta e ?df)) (sort (eta_list cfg))"
    by (simp add: make_workbook_def groupby_mean_group_mean G)
  moreover have "sheet_Avg_by_Steps (make_workbook (sort_index pt0) ?df) =
      map (\<lambda>s. (s, group_mean steps s ?df)) (sort (steps_list cfg))"
    by (simp add: make_workbook_def groupby_mean_group_mean G)
  moreover have "drop 3 ([Txt_Table (sort_index pt0), Txt_Best (?df ! i), Txt_Worst (?df ! j)] @
                txt_averages cfg ?df) =
      map (\<lambda>e. Txt_Avg_Eta e (group_mean eta e ?df)) (eta_list cfg) @
      map (\<lambda>s. Txt_Avg_Steps s (group_mean steps s ?df)) (steps_list cfg)"
    by (simp add: txt_averages_def mean_where_group_mean)
  ultimately have "\<exists>wb items.
           xlsx_file (snd (main cfg env)) = Some wb \<and>
           txt_file (snd (main cfg env)) = Some items \<and>
           sheet_Avg_by_Eta wb = map (\<lambda>e. (e, group_mean eta e ?df)) (sort (eta_list cfg)) \<and>
           sheet_Avg_by_Steps wb = map (\<lambda>s. (s, group_mean steps s ?df)) (sort (steps_list cfg)) \<and>
           drop 3 items =
             map (\<lambda>e. Txt_Avg_Eta e (group_mean eta e ?df)) (eta_list cfg) @
             map (\<lambda>s. Txt_Avg_Steps s (group_mean steps s ?df)) (steps_list cfg)"
    using x t by blast
  then show ?thesis by (simp add: group_mean_def arithmetic_mean_def)
qed


lemma main_completes:
  assumes checks: "passes_path_checks cfg env"
    and known: "\<forall>e \<in> set (eta_list cfg). eta_to_folder e \<noteq> None"
    and p: "pivot (results (snd (main cfg env))) = Inr pt0"
    and i: "idxmin (map fid (results (snd (main cfg env)))) = Inr i"
    and j: "idxmax (map fid (results (snd (main cfg env)))) = Inr j"
  shows "fst (main cfg env) = Completed"
    and "xlsx_file (snd (main cfg env)) =
           Some (make_workbook (sort_index pt0) (results (snd (main cfg env))))"
    and "csv_file (snd (main cfg env)) = Some (sort_index pt0)"
    and "txt_file (snd (main cfg env)) =
           Some ([Txt_Table (sort_index pt0), Txt_Best (results (snd (main cfg env)) ! i),
                  Txt_Worst (results (snd (main cfg env)) ! j)] @
                 txt_averages cfg (results (snd (main cfg env))))"
proof -
  let ?st = "print All_calculations_completed (snd (sweep cfg env (state_before_sweep cfg env)))"
  have m: "main cfg env = report cfg ?st"
    using sweep_known(1)[OF known, of env "state_before_sweep cfg env"]
    unfolding main_after_checks[OF checks]
    by (cases "sweep cfg env (state_before_sweep cfg env)") simp
  have r: "results (snd (main cfg env)) = results ?st"
    by (simp add: m report_keeps_sweep_fields)
  note C = report_completes[OF p[unfolded r] i[unfolded r] j[unfolded r], of cfg]
  show "fst (main cfg env) = Completed" using C(1) by (simp add: m)
  show "xlsx_file (snd (main cfg env)) =
           Some (make_workbook (sort_index pt0) (results (snd (main cfg env))))"
    unfolding r using C(2) by (simp add: m)
  show "csv_file (snd (main cfg env)) = Some (sort_index pt0)" using C(3) by (simp add: m)
  show "txt_file (snd (main cfg env)) =
           Some ([Txt_Table (sort_index pt0), Txt_Best (results (snd (main cfg env)) ! i),
                  Txt_Worst (results (snd (main cfg env)) ! j)] @
                 txt_averages cfg (results (snd (main cfg env))))"
    unfolding r using C(4) by (simp add: m)
qed

lemma scenario_results:
  "results (snd (main scenario_config scenario_env)) = scenario_rows"
  by (simp add: scenario_missing_results scenario_rows_def)

lemma descending_config_fields [simp]:
  "steps_list descending_config = [10, 20]"
  "eta_list descending_config = [1, 0]"
  "reference_path descending_config = ''./data/afhq/eval''"
  "samples_base_path descending_config = ''./samples''"
  by (simp_all add: descending_config_def)

lemma descending_paths [simp]:
  "sample_path descending_config s tok = sample_path scenario_config s tok"
  by (simp add: sample_path_def)

lemma descending_results:
  "results (snd (main descending_config scenario_env)) = descending_rows"
  by (simp add: main_known_results(1) grid_record_def point_fid_def descending_rows_def)

lemma scenario_pivot:
  "pivot scenario_rows =
     Inr \<lparr>pt_index = [10, 20], pt_columns = [0, 1], pt_values = [[Some 3, None], [Some 4, None]]\<rparr>"
  by (simp add: pivot_def scenario_rows_def cell_def)

lemma descending_pivot:
  "pivot descending_rows =
     Inr \<lparr>pt_index = [10, 20], pt_columns = [0, 1], pt_values = [[Some 3, None], [Some 4, None]]\<rparr>"
  by (simp add: pivot_def descending_rows_def cell_def)

lemma scenario_idx:
  "idxmin (map fid scenario_rows) = Inr 0" "idxmax (map fid scenario_rows) = Inr 2"
  "idxmin (map fid descending_rows) = Inr 1" "idxmax (map fid descending_rows) = Inr 3"
  by (simp_all add: idxmin_def idxmax_def scenario_rows_def descending_rows_def)


lemma scenario_run:
  "fst (main scenario_config scenario_env) = Completed"
  "xlsx_file (snd (main scenario_config scenario_env)) =
     Some (make_workbook
       \<lparr>pt_index = [10, 20], pt_columns = [0, 1], pt_values = [[Some 3, None], [Some 4, None]]\<rparr>
       scenario_rows)"
  "csv_file (snd (main scenario_config scenario_env)) =
     Some \<lparr>pt_index = [10, 20], pt_columns = [0, 1], pt_values = [[Some 3, None], [Some 4, None]]\<rparr>"
  "txt_file (snd (main scenario_config scenario_env)) =
     Some ([Txt_Table \<lparr>pt_index = [10, 20], pt_columns = [0, 1],
                        pt_values = [[Some 3, None], [Some 4, None]]\<rparr>,
            Txt_Best \<lparr>steps = 10, eta = 0, fid = Some 3\<rparr>,
            Txt_Worst \<lparr>steps = 20, eta = 0, fid = Some 4\<rparr>] @
           txt_averages scenario_config scenario_rows)"
proof -
  have known: "\<forall>e \<in> set (eta_list scenario_config). eta_to_folder e \<noteq> None" by simp
  note M = main_completes[OF scenario_checks(1) known, unfolded scenario_results,
      OF scenario_pivot scenario_idx(1,2)]
  show "fst (main scenario_config scenario_env) = Completed" by (rule M(1))
  show "xlsx_file (snd (main scenario_config scenario_env)) =
     Some (make_workbook
       \<lparr>pt_index = [10, 20], pt_columns = [0, 1], pt_values = [[Some 3, None], [Some 4, None]]\<rparr>
       scenario_rows)"
    using M(2) by (simp add: sort_index_def)
  show "csv_file (snd (main scenario_config scenario_env)) =
     Some \<lparr>pt_index = [10, 20], pt_columns = [0, 1], pt_values = [[Some 3, None], [Some 4, None]]\<rparr>"
    using M(3) by (simp add: sort_index_def)
  show "txt_file (snd (main scenario_config scenario_env)) =
     Some ([Txt_Table \<lparr>pt_index = [10, 20], pt_columns = [0, 1],
                        pt_values = [[Some 3, None], [Some 4, None]]\<rparr>,
            Txt_Best \<lparr>steps = 10, eta = 0, fid = Some 3\<rparr>,
            Txt_Worst \<lparr>steps = 20, eta = 0, fid = Some 4\<rparr>] @
           txt_averages scenario_config scenario_rows)"
    using M(4) by (simp add: sort_index_def scenario_rows_def)
qed

lemma descending_run:
  "fst (main descending_config scenario_env) = Completed"
  "xlsx_file (snd (main descending_config scenario_env)) =
     Some (make_workbook
       \<lparr>pt_index = [10, 20], pt_columns = [0, 1], pt_values = [[Some 3, None], [Some 4, None]]\<rparr>
       descending_rows)"
  "csv_file (snd (main descending_config scenario_env)) =
     Some \<lparr>pt_index = [10, 20], pt_columns = [0, 1], pt_values = [[Some 3, None], [Some 4, None]]\<rparr>"
  "txt_file (snd (main descending_config scenario_env)) =
     Some ([Txt_Table \<lparr>pt_index = [10, 20], pt_columns = [0, 1],
                        pt_values = [[Some 3, None], [Some 4, None]]\<rparr>,
            Txt_Best \<lparr>steps = 10, eta = 0, fid = Some 3\<rparr>,
            Txt_Worst \<lparr>steps = 20, eta = 0, fid = Some 4\<rparr>] @
           txt_averages descending_config descending_rows)"
proof -
  have known: "\<forall>e \<in> set (eta_list descending_config). eta_to_folder e \<noteq> None" by simp
  note M = main_completes[OF scenario_checks(3) known, unfolded descending_results,
      OF descending_pivot scenario_idx(3,4)]
  show "fst (main descending_config scenario_env) = Completed" by (rule M(1))
  show "xlsx_file (snd (main descending_config scenario_env)) =
     Some (make_workbook
       \<lparr>pt_index = [10, 20], pt_columns = [0, 1], pt_values = [[Some 3, None], [Some 4, None]]\<rparr>
       descending_rows)"
    using M(2) by (simp add: sort_index_def)
  show "csv_file (snd (main descending_config scenario_env)) =
     Some \<lparr>pt_index = [10, 20], pt_columns = [0, 1], pt_values = [[Some 3, None], [Some 4, None]]\<rparr>"
    using M(3) by (simp add: sort_index_def)
  show "txt_file (snd (main descending_config scenario_env)) =
     Some ([Txt_Table \<lparr>pt_index = [10, 20], pt_columns = [0, 1],
                        pt_values = [[Some 3, None], [Some 4, None]]\<rparr>,
            Txt_Best \<lparr>steps = 10, eta = 0, fid = Some 3\<rparr>,
            Txt_Worst \<lparr>steps = 20, eta = 0, fid = Some 4\<rparr>] @
           txt_averages descending_config descending_rows)"
    using M(4) by (simp add: sort_index_def descending_rows_def)
qed

lemma example_group_means:
  "groupby_mean eta scenario_rows = [(0, Some (7 / 2)), (1, None)]"
  "groupby_mean steps scenario_rows = [(10, Some 3), (20, Some 4)]"
  "groupby_mean eta descending_rows = [(0, Some (7 / 2)), (1, None)]"
  "groupby_mean steps descending_rows = [(10, Some 3), (20, Some 4)]"
  "txt_averages scenario_config scenario_rows =
     [Txt_Avg_Eta 0 (Some (7 / 2)), Txt_Avg_Eta 1 None,
      Txt_Avg_Steps 10 (Some 3), Txt_Avg_Steps 20 (Some 4)]"
  "txt_averages descending_config descending_rows =
     [Txt_Avg_Eta 1 None, Txt_Avg_Eta 0 (Some (7 / 2)),
      Txt_Avg_Steps 10 (Some 3), Txt_Avg_Steps 20 (Some 4)]"
  by (simp_all add: groupby_mean_def txt_averages_def mean_where_def series_mean_def
      count_notna_def scenario_rows_def descending_rows_def)

text \<open>
  The theorem on the scenario: the group of eta 1.0 has no ok row and a missing average.
\<close>

theorem group_averages_witness:
  "fst (main scenario_config scenario_env) = Completed \<and>
   map_option sheet_Avg_by_Eta (xlsx_file (snd (main scenario_config scenario_env))) =
     Some [(0, Some (7 / 2)), (1, None)] \<and>
   map_option sheet_Avg_by_Steps (xlsx_file (snd (main scenario_config scenario_env))) =
     Some [(10, Some 3), (20, Some 4)] \<and>
   map_option (drop 3) (txt_file (snd (main scenario_config scenario_env))) =
     Some [Txt_Avg_Eta 0 (Some (7 / 2)), Txt_Avg_Eta 1 None,
           Txt_Avg_Steps 10 (Some 3), Txt_Avg_Steps 20 (Some 4)] \<and>
   ok_metrics (filter (\<lambda>r. eta r = 1) (results (snd (main scenario_config scenario_env)))) = [] \<and>
   group_mean eta 1 (results (snd (main scenario_config scenario_env))) = None"
proof -
  have h: "fst (main scenario_config scenario_env) = Completed" by (rule scenario_run(1))
  have e: "ok_metrics (filter (\<lambda>r. eta r = 1) (results (snd (main scenario_config scenario_env)))) = []"
    by (simp add: scenario_results scenario_rows_def ok_metrics_def)
  from group_averages[OF h] e
  have "group_mean eta 1 (results (snd (main scenario_config scenario_env))) = None"
    by blast
  with h e show ?thesis
    by (simp add: scenario_run make_workbook_def example_group_means)
qed

text \<open>
  Claim C7 as stated fails for the workbook: with the eta list [1.0, 0] the sheet
  \<open>Avg_by_Eta\<close> lists 0 before 1.0.
\<close>

theorem workbook_averages_sorted_not_input_order:
  "fst (main descending_config scenario_env) = Completed \<and>
   eta_list descending_config = [1, 0] \<and>
   map_option (map fst \<circ> sheet_Avg_by_Eta) (xlsx_file (snd (main descending_config scenario_env))) =
     Some [0, 1]"
  by (simp add: descending_run make_workbook_def example_group_means)

subsection \<open>The pivot table\<close>

lemma cell_of_row:
  assumes d: "distinct (map config_point df)" and r: "r \<in> set df"
  shows "cell df (steps r) (eta r) = fid r"
proof -
  from r have "\<exists>x. x \<in> set df \<and> steps x = steps r \<and> eta x = eta r" by blast
  then obtain r' where f: "find (\<lambda>x. steps x = steps r \<and> eta x = eta r) df = Some r'"
    by (cases "find (\<lambda>x. steps x = steps r \<and> eta x = eta r) df") (auto simp: find_None_iff)
  then have r': "r' \<in> set df" "steps r' = steps r" "eta r' = eta r"
    by (auto simp: find_Some_iff)
  from d have "inj_on config_point (set df)" by (simp add: distinct_map)
  with r r' have "r' = r" by (auto simp: inj_on_def config_point_def)
  with f show ?thesis by (simp add: cell_def)
qed

lemma cell_no_row:
  assumes "\<forall>r \<in> set df. \<not> (steps r = s \<and> eta r = e)"
  shows "cell df s e = None"
proof -
  from assms have "find (\<lambda>r. steps r = s \<and> eta r = e) df = None"
    by (auto simp: find_None_iff)
  then show ?thesis by (simp add: cell_def)
qed

lemma pivot_sort_index:
  assumes "pivot df = Inr pt"
  shows "sort_index pt = pt"
proof -
  note P = pivot_Inr[OF assms]
  let ?rows = "zip (pt_index pt) (pt_values pt)"
  have len: "length (pt_values pt) = length (pt_index pt)" by (subst P(5)) simp
  then have fst: "map fst ?rows = pt_index pt" and snd: "map snd ?rows = pt_values pt"
    by simp_all
  have "sorted (map fst ?rows)" unfolding fst by (simp add: P(3))
  then have "sort_key fst ?rows = ?rows" by (rule sort_key_id_if_sorted)
  then show ?thesis by (simp add: sort_index_def Let_def fst snd)
qed

text \<open>
  Claim C6, as the code has it. Whenever \<open>df.pivot\<close> succeeds (lines 102-103), the table
  has one row per distinct steps value and one column per distinct eta value, the rows and
  the columns both in ascending order of their key (so \<open>sort_index\<close> changes nothing, and
  the columns follow the input order of the eta list only when that list is ascending).
  The cell of a row of \<open>df\<close> is its metric when it has one and the missing marker
  \<open>None\<close> (never zero) when it has none; a pair of keys with no row has a missing cell.
\<close>

theorem pivot_table_shape:
  assumes "pivot df = Inr pt"
  shows "sort_index pt = pt \<and>
         sorted (pt_index pt) \<and> distinct (pt_index pt) \<and> set (pt_index pt) = steps ` set df \<and>
         sorted (pt_columns pt) \<and> distinct (pt_columns pt) \<and> set (pt_columns pt) = eta ` set df \<and>
         length (pt_index pt) = card (steps ` set df) \<and>
         length (pt_columns pt) = card (eta ` set df) \<and>
         length (pt_values pt) = length (pt_index pt) \<and>
         (\<forall>i < length (pt_index pt).
            length (pt_values pt ! i) = length (pt_columns pt) \<and>
            (\<forall>j < length (pt_columns pt).
               (\<forall>r \<in> set df. steps r = pt_index pt ! i \<and> eta r = pt_columns pt ! j \<longrightarrow>
                   pt_values pt ! i ! j = fid r) \<and>
               ((\<forall>r \<in> set df. \<not> (steps r = pt_index pt ! i \<and> eta r = pt_columns pt ! j)) \<longrightarrow>
                   pt_values pt ! i ! j = None)))"
proof -
  note P = pivot_Inr[OF assms]
  have idx: "sorted (pt_index pt)" "distinct (pt_index pt)" "set (pt_index pt) = steps ` set df"
    by (simp_all add: P(3))
  have cols: "sorted (pt_columns pt)" "distinct (pt_columns pt)" "set (pt_columns pt) = eta ` set df"
    by (simp_all add: P(4))
  have n_idx: "length (pt_index pt) = card (steps ` set df)"
    using distinct_card[OF idx(2)] idx(3) by simp
  have n_cols: "length (pt_columns pt) = card (eta ` set df)"
    using distinct_card[OF cols(2)] cols(3) by simp
  have len: "length (pt_values pt) = length (pt_index pt)" by (subst P(5)) simp
  have cells: "length (pt_values pt ! i) = length (pt_columns pt) \<and>
            (\<forall>j < length (pt_columns pt).
               (\<forall>r \<in> set df. steps r = pt_index pt ! i \<and> eta r = pt_columns pt ! j \<longrightarrow>
                   pt_values pt ! i ! j = fid r) \<and>
               ((\<forall>r \<in> set df. \<not> (steps r = pt_index pt ! i \<and> eta r = pt_columns pt ! j)) \<longrightarrow>
                   pt_values pt ! i ! j = None))"
    if i: "i < length (pt_index pt)" for i
  proof -
    have row: "pt_values pt ! i = map (cell df (pt_index pt ! i)) (pt_columns pt)"
      using i by (subst P(5)) simp
    have "pt_values pt ! i ! j = cell df (pt_index pt ! i) (pt_columns pt ! j)"
      if "j < length (pt_columns pt)" for j
      using that by (simp add: row)
    moreover have "cell df (pt_index pt ! i) (pt_columns pt ! j) = fid r"
      if "r \<in> set df" "steps r = pt_index pt ! i" "eta r = pt_columns pt ! j" for r j
      using cell_of_row[OF P(2) that(1)] that(2,3) by simp
    moreover have "cell df (pt_index pt ! i) (pt_columns pt ! j) = None"
      if "\<forall>r \<in> set df. \<not> (steps r = pt_index pt ! i \<and> eta r = pt_columns pt ! j)" for j
      using that by (rule cell_no_row)
    ultimately show ?thesis by (simp add: row)
  qed
  from pivot_sort_index[OF assms] idx cols n_idx n_cols len cells show ?thesis by blast
qed

text \<open>The theorem on the rows of the scenario with the eta list [1.0, 0].\<close>

theorem pivot_table_shape_witness:
  "pivot descending_rows =
     Inr \<lparr>pt_index = [10, 20], pt_columns = [0, 1], pt_values = [[Some 3, None], [Some 4, None]]\<rparr> \<and>
   sorted [10, 20 :: int] \<and> sorted [0, 1 :: rat] \<and>
   card (steps ` set descending_rows) = 2 \<and> card (eta ` set descending_rows) = 2"
proof -
  note T = pivot_table_shape[OF descending_pivot]
  from T have "card (steps ` set descending_rows) = 2" "card (eta ` set descending_rows) = 2"
    by simp_all
  then show ?thesis by (simp add: descending_pivot)
qed

text \<open>
  Claim C6 as stated fails: with the eta list [1.0, 0] the columns of the table written to
  the CSV file and to the workbook are 0, 1.0.
\<close>

theorem pivot_columns_sorted_not_input_order:
  "fst (main descending_config scenario_env) = Completed \<and>
   eta_list descending_config = [1, 0] \<and>
   map_option pt_columns (csv_file (snd (main descending_config scenario_env))) = Some [0, 1] \<and>
   map_option (pt_columns \<circ> sheet_FID_Table) (xlsx_file (snd (main descending_config scenario_env))) =
     Some [0, 1]"
  by (simp add: descending_run make_workbook_def)

subsection \<open>Agreement of the three files\<close>







lemma one_point_fields [simp]:
  "steps_list one_point_config = [10]" "eta_list one_point_config = [0]"
  "reference_path one_point_config = ''./data/afhq/eval''"
  "samples_base_path one_point_config = ''./samples''"
  "path_exists one_point_env p =
     (p \<in> set [''./samples'', ''./data/afhq/eval'', ''./samples/steps_10_eta_0''])"
  "calculate_fid_given_paths one_point_env r p = Returns (1 / 64)"
  "user_input one_point_env = []"
  by (simp_all add: one_point_config_def one_point_env_def)




subsection \<open>No row has a metric\<close>

lemma report_all_missing:
  assumes "\<forall>r \<in> set (results st). fid r = None"
  shows "\<exists>err. fst (report cfg st) = Raised err"
proof -
  from assms have "\<forall>x \<in> set (map fid (results st)). x = None" by simp
  then have "idxmin (map fid (results st)) = Inl No_present_value"
    using idxmin_Inl[of "map fid (results st)" No_present_value] by simp
  then show ?thesis
    by (cases "pivot (results st)") (simp_all add: report_def Let_def)
qed

text \<open>
  Claim C3 against the code. When the run is past the path checks and no row has a metric,
  the summary statistics are all missing, as the claim says, but the run does not end
  normally: it raises. When the pivot succeeds, the workbook and the CSV file are written
  and \<open>df['fid'].idxmin()\<close> of line 163 raises on the column without a present value,
  after the text file was opened and the table written to it; nothing reports "no data".
\<close>

theorem no_ok_row_raises:
  assumes "passes_path_checks cfg env"
    and "\<forall>r \<in> set (results (snd (main cfg env))). fid r = None"
  shows "summary (results (snd (main cfg env))) =
           \<lparr>best_fid = None, worst_fid = None, mean_fid = None, std_fid = None\<rparr> \<and>
         (\<exists>err. fst (main cfg env) = Raised err)"
proof
  have "ok_metrics (results (snd (main cfg env))) = []"
    using assms(2) by (simp add: ok_metrics_def)
  then show "summary (results (snd (main cfg env))) =
      \<lparr>best_fid = None, worst_fid = None, mean_fid = None, std_fid = None\<rparr>"
    by (simp add: summary_def series_min_ok series_max_ok series_mean_ok series_std_def
        series_var_ok arithmetic_mean_def sample_variance_def)
  let ?sw = "sweep cfg env (state_before_sweep cfg env)"
  show "\<exists>err. fst (main cfg env) = Raised err"
  proof (cases "fst ?sw")
    case (Some err)
    from main_raised_by_sweep[OF assms(1) this] show ?thesis by simp
  next
    case None
    let ?st = "print All_calculations_completed (snd ?sw)"
    have m: "main cfg env = report cfg ?st"
      using None unfolding main_after_checks[OF assms(1)] by (cases ?sw) simp
    have "results (snd (main cfg env)) = results ?st"
      by (simp add: m report_keeps_sweep_fields)
    with assms(2) have "\<forall>r \<in> set (results ?st). fid r = None" by simp
    from report_all_missing[OF this, of cfg] show ?thesis by (simp add: m)
  qed
qed


lemma pivot_succeeds:
  assumes "df \<noteq> []" and "distinct (map config_point df)"
  shows "\<exists>pt. pivot df = Inr pt"
  using assms by (simp add: pivot_def Let_def config_point_def[abs_def])

lemma main_raises_in_report:
  assumes checks: "passes_path_checks cfg env"
    and known: "\<forall>e \<in> set (eta_list cfg). eta_to_folder e \<noteq> None"
    and p: "pivot (results (snd (main cfg env))) = Inr pt0"
    and i: "idxmin (map fid (results (snd (main cfg env)))) = Inl err"
  shows "fst (main cfg env) = Raised err"
    and "xlsx_file (snd (main cfg env)) =
           Some (make_workbook (sort_index pt0) (results (snd (main cfg env))))"
    and "csv_file (snd (main cfg env)) = Some (sort_index pt0)"
    and "txt_file (snd (main cfg env)) = Some [Txt_Table (sort_index pt0)]"
proof -
  let ?st = "print All_calculations_completed (snd (sweep cfg env (state_before_sweep cfg env)))"
  have m: "main cfg env = report cfg ?st"
    using sweep_known(1)[OF known, of env "state_before_sweep cfg env"]
    unfolding main_after_checks[OF checks]
    by (cases "sweep cfg env (state_before_sweep cfg env)") simp
  have r: "results (snd (main cfg env)) = results ?st"
    by (simp add: m report_keeps_sweep_fields)
  note p' = p[unfolded r] and i' = i[unfolded r]
  show "fst (main cfg env) = Raised err"
    using p' i' by (simp add: m report_def Let_def)
  show "xlsx_file (snd (main cfg env)) =
           Some (make_workbook (sort_index pt0) (results (snd (main cfg env))))"
    unfolding r using p' i' by (simp add: m report_def Let_def print_def)
  show "csv_file (snd (main cfg env)) = Some (sort_index pt0)"
    using p' i' by (simp add: m report_def Let_def print_def)
  show "txt_file (snd (main cfg env)) = Some [Txt_Table (sort_index pt0)]"
    using p' i' by (simp add: m report_def Let_def print_def)
qed

lemma default_known: "\<forall>e \<in> set (eta_list default_config). eta_to_folder e \<noteq> None"
  by (simp add: eta_to_folder_def)

lemma empty_samples_env_fields:
  "path_exists empty_samples_env p = (p = ''./samples'' \<or> p = ''./data/afhq/eval'')"
  by (simp add: empty_samples_env_def)

lemma empty_samples_no_directory:
  "\<not> path_exists empty_samples_env (sample_path default_config s tok)"
  by (simp add: empty_samples_env_fields sample_path_def path_join_def folder_name_def)

lemma empty_samples_rows:
  "fid (grid_record default_config empty_samples_env s e) = None"
  "point_calls default_config empty_samples_env s e = []"
  by (simp_all add: grid_record_def point_fid_def point_calls_def empty_samples_no_directory
      split: option.splits)

text \<open>
  The theorem on the configuration of the source, with the samples root and the reference
  path present and none of the twenty sample directories: the engine is never invoked, the
  run raises at line 163, and the text file is left with the table as its only block.
\<close>

theorem no_ok_row_raises_witness:
  "passes_path_checks default_config empty_samples_env \<and>
   list_all (\<lambda>r. fid r = None) (results (snd (main default_config empty_samples_env))) \<and>
   length (results (snd (main default_config empty_samples_env))) = 20 \<and>
   engine_calls (snd (main default_config empty_samples_env)) = [] \<and>
   fst (main default_config empty_samples_env) = Raised No_present_value \<and>
   map_option length (txt_file (snd (main default_config empty_samples_env))) = Some 1"
proof -
  let ?df = "results (snd (main default_config empty_samples_env))"
  have h1: "passes_path_checks default_config empty_samples_env" by simp
  note R = main_known_results[OF h1 default_known]
  have h2: "\<forall>r \<in> set ?df. fid r = None"
    unfolding R(1) by (auto simp: empty_samples_rows)
  have len: "length ?df = 20"
    unfolding R(1) by simp
  have calls: "engine_calls (snd (main default_config empty_samples_env)) = []"
    unfolding R(2) by (simp add: empty_samples_rows)
  have "map config_point ?df = List.product (steps_list default_config) (eta_list default_config)"
    unfolding R(1) by (rule config_point_grid)
  moreover have "distinct (List.product (steps_list default_config) (eta_list default_config))"
    by (rule distinct_product) simp_all
  ultimately have "distinct (map config_point ?df)" by simp
  moreover from len have "?df \<noteq> []" by auto
  ultimately obtain pt0 where p: "pivot ?df = Inr pt0" using pivot_succeeds by blast
  from h2 have i: "idxmin (map fid ?df) = Inl No_present_value"
    using idxmin_Inl[of "map fid ?df" No_present_value] by simp
  note M = main_raises_in_report[OF h1 default_known p i]
  from no_ok_row_raises[OF h1 h2] M(1) have "fst (main default_config empty_samples_env) = Raised No_present_value"
    by simp
  with h1 h2 len calls M(4) show ?thesis by (simp add: list_all_iff)
qed

subsection \<open>The best and the worst row of the report\<close>

lemma report_console:
  assumes "pivot (results st) = Inr pt0"
    and "idxmin (map fid (results st)) = Inr i"
    and "idxmax (map fid (results st)) = Inr j"
  shows "last (stdout (snd (report cfg st))) =
           Summary_shown (results st ! i) (results st ! j)
             (series_mean (map fid (results st))) (series_std (map fid (results st)))"
  using assms by (simp add: report_def Let_def print_def)

text \<open>
  Claim C4. Lines 163-171 write the rows \<open>df.loc[df['fid'].idxmin()]\<close> and
  \<open>df.loc[df['fid'].idxmax()]\<close> to the text file, and lines 188-194 print them. Whenever
  some row has a metric and the pivot has succeeded, the report completes, and the row it
  writes as best configuration has a metric that is at most the metric of every row that
  has one, the row it writes as worst configuration a metric that is at least each of
  them, and no earlier row in the order of \<open>results\<close> (the grid order) has the same
  metric as the one written. The same holds of the text file of every run of \<open>main\<close> that
  completes.
\<close>

theorem best_and_worst_rows:
  "((\<exists>r \<in> set (results st). fid r \<noteq> None) \<and> pivot (results st) = Inr pt0 \<longrightarrow>
      (\<exists>i j m M.
         idxmin (map fid (results st)) = Inr i \<and> idxmax (map fid (results st)) = Inr j \<and>
         i < length (results st) \<and> j < length (results st) \<and>
         fid (results st ! i) = Some m \<and> fid (results st ! j) = Some M \<and>
         (\<forall>r \<in> set (results st). \<forall>v. fid r = Some v \<longrightarrow> m \<le> v \<and> v \<le> M) \<and>
         (\<forall>l < i. fid (results st ! l) \<noteq> Some m) \<and>
         (\<forall>l < j. fid (results st ! l) \<noteq> Some M) \<and>
         fst (report cfg st) = Completed \<and>
         txt_file (snd (report cfg st)) =
           Some ([Txt_Table (sort_index pt0), Txt_Best (results st ! i),
                  Txt_Worst (results st ! j)] @ txt_averages cfg (results st)) \<and>
         last (stdout (snd (report cfg st))) =
           Summary_shown (results st ! i) (results st ! j)
             (series_mean (map fid (results st))) (series_std (map fid (results st))))) \<and>
   (fst (main cfg env) = Completed \<longrightarrow>
      (\<exists>pt i j m M.
         i < length (results (snd (main cfg env))) \<and> j < length (results (snd (main cfg env))) \<and>
         fid (results (snd (main cfg env)) ! i) = Some m \<and>
         fid (results (snd (main cfg env)) ! j) = Some M \<and>
         (\<forall>r \<in> set (results (snd (main cfg env))). \<forall>v. fid r = Some v \<longrightarrow> m \<le> v \<and> v \<le> M) \<and>
         (\<forall>l < i. fid (results (snd (main cfg env)) ! l) \<noteq> Some m) \<and>
         (\<forall>l < j. fid (results (snd (main cfg env)) ! l) \<noteq> Some M) \<and>
         txt_file (snd (main cfg env)) =
           Some ([Txt_Table pt, Txt_Best (results (snd (main cfg env)) ! i),
                  Txt_Worst (results (snd (main cfg env)) ! j)] @
                 txt_averages cfg (results (snd (main cfg env))))))"
proof (intro conjI impI)
  assume a: "(\<exists>r \<in> set (results st). fid r \<noteq> None) \<and> pivot (results st) = Inr pt0"
  then have p: "pivot (results st) = Inr pt0" by simp
  from a first_extremes[of "results st"] obtain i j m M where
    e: "idxmin (map fid (results st)) = Inr i" "idxmax (map fid (results st)) = Inr j"
       "i < length (results st)" "j < length (results st)"
       "fid (results st ! i) = Some m" "fid (results st ! j) = Some M"
       "\<forall>r \<in> set (results st). \<forall>v. fid r = Some v \<longrightarrow> m \<le> v \<and> v \<le> M"
       "\<forall>l < i. fid (results st ! l) \<noteq> Some m"
       "\<forall>l < j. fid (results st ! l) \<noteq> Some M"
    by blast
  note C = report_completes[OF p e(1,2), of cfg] report_console[OF p e(1,2), of cfg]
  from e C(1,4,5) show "\<exists>i j m M.
         idxmin (map fid (results st)) = Inr i \<and> idxmax (map fid (results st)) = Inr j \<and>
         i < length (results st) \<and> j < length (results st) \<and>
         fid (results st ! i) = Some m \<and> fid (results st ! j) = Some M \<and>
         (\<forall>r \<in> set (results st). \<forall>v. fid r = Some v \<longrightarrow> m \<le> v \<and> v \<le> M) \<and>
         (\<forall>l < i. fid (results st ! l) \<noteq> Some m) \<and>
         (\<forall>l < j. fid (results st ! l) \<noteq> Some M) \<and>
         fst (report cfg st) = Completed \<and>
         txt_file (snd (report cfg st)) =
           Some ([Txt_Table (sort_index pt0), Txt_Best (results st ! i),
                  Txt_Worst (results st ! j)] @ txt_averages cfg (results st)) \<and>
         last (stdout (snd (report cfg st))) =
           Summary_shown (results st ! i) (results st ! j)
             (series_mean (map fid (results st))) (series_std (map fid (results st)))"
    by blast
next
  assume c: "fst (main cfg env) = Completed"
  let ?df = "results (snd (main cfg env))"
  from main_Completed_files[OF c] obtain pt0 i j where
    f: "idxmin (map fid ?df) = Inr i" "idxmax (map fid ?df) = Inr j"
       "txt_file (snd (main cfg env)) =
          Some ([Txt_Table (sort_index pt0), Txt_Best (?df ! i), Txt_Worst (?df ! j)] @
                txt_averages cfg ?df)"
    by blast
  from f(1) have "\<not> (\<forall>x \<in> set (map fid ?df). x = None)"
    using idxmin_Inl[of "map fid ?df"] by auto
  then have "\<exists>r \<in> set ?df. fid r \<noteq> None" by auto
  from first_extremes[OF this] f(1,2) obtain m M where
    e: "i < length ?df" "j < length ?df" "fid (?df ! i) = Some m" "fid (?df ! j) = Some M"
       "\<forall>r \<in> set ?df. \<forall>v. fid r = Some v \<longrightarrow> m \<le> v \<and> v \<le> M"
       "\<forall>l < i. fid (?df ! l) \<noteq> Some m" "\<forall>l < j. fid (?df ! l) \<noteq> Some M"
    by auto
  from e f(3) show "\<exists>pt i j m M.
         i < length ?df \<and> j < length ?df \<and>
         fid (?df ! i) = Some m \<and> fid (?df ! j) = Some M \<and>
         (\<forall>r \<in> set ?df. \<forall>v. fid r = Some v \<longrightarrow> m \<le> v \<and> v \<le> M) \<and>
         (\<forall>l < i. fid (?df ! l) \<noteq> Some m) \<and>
         (\<forall>l < j. fid (?df ! l) \<noteq> Some M) \<and>
         txt_file (snd (main cfg env)) =
           Some ([Txt_Table pt, Txt_Best (?df ! i), Txt_Worst (?df ! j)] @ txt_averages cfg ?df)"
    by blast
qed

lemma tied_state_results [simp]: "results tied_state = tied_rows"
  by (simp add: tied_state_def)

lemma tied_pivot:
  "pivot tied_rows =
     Inr \<lparr>pt_index = [10, 20], pt_columns = [0, 1 / 5, 1 / 2, 1],
          pt_values = [[None, Some 3, Some 3, Some 7], [Some 7, Some 5, None, None]]\<rparr>"
  by (simp add: pivot_def tied_rows_def cell_def)

text \<open>
  The theorem on rows where 3 and 7 each occur twice: the report writes the first row
  holding 3 and the first row holding 7. On the scenario, \<open>main\<close> writes (10, 0, 3) and
  (20, 0, 4).
\<close>

theorem best_and_worst_rows_witness:
  "(\<exists>r \<in> set (results tied_state). fid r \<noteq> None) \<and>
   pivot (results tied_state) =
     Inr \<lparr>pt_index = [10, 20], pt_columns = [0, 1 / 5, 1 / 2, 1],
          pt_values = [[None, Some 3, Some 3, Some 7], [Some 7, Some 5, None, None]]\<rparr> \<and>
   fst (report scenario_config tied_state) = Completed \<and>
   map_option (take 2 \<circ> drop 1) (txt_file (snd (report scenario_config tied_state))) =
     Some [Txt_Best \<lparr>steps = 10, eta = 2 / 10, fid = Some 3\<rparr>,
           Txt_Worst \<lparr>steps = 10, eta = 1, fid = Some 7\<rparr>] \<and>
   fst (main scenario_config scenario_env) = Completed \<and>
   map_option (take 2 \<circ> drop 1) (txt_file (snd (main scenario_config scenario_env))) =
     Some [Txt_Best \<lparr>steps = 10, eta = 0, fid = Some 3\<rparr>,
           Txt_Worst \<lparr>steps = 20, eta = 0, fid = Some 4\<rparr>]"
proof -
  have h: "\<exists>r \<in> set (results tied_state). fid r \<noteq> None" by (simp add: tied_rows_def)
  have p: "pivot (results tied_state) =
     Inr \<lparr>pt_index = [10, 20], pt_columns = [0, 1 / 5, 1 / 2, 1],
          pt_values = [[None, Some 3, Some 3, Some 7], [Some 7, Some 5, None, None]]\<rparr>"
    by (simp add: tied_pivot)
  have e: "idxmin (map fid (results tied_state)) = Inr 1"
    "idxmax (map fid (results tied_state)) = Inr 3"
    by (simp_all add: tied_rows_def idxmin_def idxmax_def)
  from best_and_worst_rows[where st = tied_state and cfg = scenario_config and env = scenario_env] h p
  obtain i j where r:
    "idxmin (map fid (results tied_state)) = Inr i" "idxmax (map fid (results tied_state)) = Inr j"
    "fst (report scenario_config tied_state) = Completed"
    "txt_file (snd (report scenario_config tied_state)) =
       Some ([Txt_Table (sort_index \<lparr>pt_index = [10, 20], pt_columns = [0, 1 / 5, 1 / 2, 1],
          pt_values = [[None, Some 3, Some 3, Some 7], [Some 7, Some 5, None, None]]\<rparr>),
              Txt_Best (results tied_state ! i), Txt_Worst (results tied_state ! j)] @
             txt_averages scenario_config (results tied_state))"
    by blast
  from r(1,2) e have "i = 1" "j = 3" by simp_all
  with r(4) have "map_option (take 2 \<circ> drop 1) (txt_file (snd (report scenario_config tied_state))) =
     Some [Txt_Best \<lparr>steps = 10, eta = 2 / 10, fid = Some 3\<rparr>,
           Txt_Worst \<lparr>steps = 10, eta = 1, fid = Some 7\<rparr>]"
    by (simp add: tied_rows_def)
  with h p r(3) show ?thesis by (simp add: scenario_run)
qed

end
